theory Spec2Isabelle
  imports Complex_Main "HOL-Library.AList" "HOL-Library.Char_ord" "HOL-Library.List_Lexorder"
    "HOL-Library.Product_Lexorder"
begin

section \<open>Floating-point values\<close>

text \<open>
  pandas and numpy compute on IEEE doubles. A value is modelled as a finite real number, one
  of the two infinities, or NaN (pandas' missing value). Arithmetic on finite values is exact:
  rounding, overflow to infinity and the sign of zero are not modelled (a nonzero value
  divided by zero gives the infinity of the numerator's sign). The special values follow the
  IEEE rules, which is what decides how missing values and divisions by zero flow through the
  code.
\<close>

datatype fl = Fin real | PInf | NInf | NaN

fun fadd :: "fl \<Rightarrow> fl \<Rightarrow> fl" where
  "fadd (Fin a) (Fin b) = Fin (a + b)"
| "fadd NaN _ = NaN"
| "fadd _ NaN = NaN"
| "fadd PInf NInf = NaN"
| "fadd NInf PInf = NaN"
| "fadd PInf _ = PInf"
| "fadd _ PInf = PInf"
| "fadd NInf _ = NInf"
| "fadd _ NInf = NInf"

fun fneg :: "fl \<Rightarrow> fl" where
  "fneg (Fin a) = Fin (- a)"
| "fneg PInf = NInf"
| "fneg NInf = PInf"
| "fneg NaN = NaN"

definition fsub :: "fl \<Rightarrow> fl \<Rightarrow> fl" where
  "fsub a b = fadd a (fneg b)"

fun fmul :: "fl \<Rightarrow> fl \<Rightarrow> fl" where
  "fmul (Fin a) (Fin b) = Fin (a * b)"
| "fmul NaN _ = NaN"
| "fmul _ NaN = NaN"
| "fmul PInf (Fin b) = (if b = 0 then NaN else if 0 < b then PInf else NInf)"
| "fmul NInf (Fin b) = (if b = 0 then NaN else if 0 < b then NInf else PInf)"
| "fmul (Fin a) PInf = (if a = 0 then NaN else if 0 < a then PInf else NInf)"
| "fmul (Fin a) NInf = (if a = 0 then NaN else if 0 < a then NInf else PInf)"
| "fmul PInf PInf = PInf"
| "fmul PInf NInf = NInf"
| "fmul NInf PInf = NInf"
| "fmul NInf NInf = PInf"

fun fdiv :: "fl \<Rightarrow> fl \<Rightarrow> fl" where
  "fdiv (Fin a) (Fin b) =
     (if b = 0 then (if a = 0 then NaN else if 0 < a then PInf else NInf) else Fin (a / b))"
| "fdiv NaN _ = NaN"
| "fdiv _ NaN = NaN"
| "fdiv (Fin a) PInf = Fin 0"
| "fdiv (Fin a) NInf = Fin 0"
| "fdiv PInf (Fin b) = (if 0 \<le> b then PInf else NInf)"
| "fdiv NInf (Fin b) = (if 0 \<le> b then NInf else PInf)"
| "fdiv PInf PInf = NaN"
| "fdiv PInf NInf = NaN"
| "fdiv NInf PInf = NaN"
| "fdiv NInf NInf = NaN"

fun fabs :: "fl \<Rightarrow> fl" where
  "fabs (Fin a) = Fin \<bar>a\<bar>"
| "fabs PInf = PInf"
| "fabs NInf = PInf"
| "fabs NaN = NaN"

text \<open>Comparison \<open>a <= b\<close>: false as soon as one side is NaN.\<close>

fun fle :: "fl \<Rightarrow> fl \<Rightarrow> bool" where
  "fle (Fin a) (Fin b) = (a \<le> b)"
| "fle NaN _ = False"
| "fle _ NaN = False"
| "fle NInf _ = True"
| "fle _ PInf = True"
| "fle PInf _ = False"
| "fle _ NInf = False"

fun fsqrt :: "fl \<Rightarrow> fl" where
  "fsqrt (Fin a) = (if a < 0 then NaN else Fin (sqrt a))"
| "fsqrt PInf = PInf"
| "fsqrt NInf = NaN"
| "fsqrt NaN = NaN"

text \<open>
  \<open>x ** y\<close> for a finite exponent \<open>y\<close>, as C's \<open>pow\<close>: anything to the power 0 is 1, a
  negative base has a power only for a whole exponent.
\<close>

definition is_whole :: "real \<Rightarrow> bool" where
  "is_whole y = (of_int \<lfloor>y\<rfloor> = y)"

fun fpow :: "fl \<Rightarrow> real \<Rightarrow> fl" where
  "fpow (Fin x) y =
     (if y = 0 then Fin 1
      else if 0 < x then Fin (x powr y)
      else if x = 0 then (if 0 < y then Fin 0 else PInf)
      else if is_whole y then Fin (power_int x \<lfloor>y\<rfloor>)
      else NaN)"
| "fpow PInf y = (if y = 0 then Fin 1 else if 0 < y then PInf else Fin 0)"
| "fpow NInf y =
     (if y = 0 then Fin 1
      else if y < 0 then Fin 0
      else if is_whole y \<and> odd \<lfloor>y\<rfloor> then NInf else PInf)"
| "fpow NaN y = (if y = 0 then Fin 1 else NaN)"

definition isna :: "fl \<Rightarrow> bool" where
  "isna x = (x = NaN)"

text \<open>\<open>fillna(0.0)\<close> on one cell, \<open>dropna()\<close> on the values of a Series.\<close>

definition fillna0 :: "fl \<Rightarrow> fl" where
  "fillna0 x = (if isna x then Fin 0 else x)"

definition dropna :: "fl list \<Rightarrow> fl list" where
  "dropna xs = filter (\<lambda>x. \<not> isna x) xs"

fun fsum :: "fl list \<Rightarrow> fl" where
  "fsum [] = Fin 0"
| "fsum (x # xs) = fadd x (fsum xs)"

text \<open>\<open>sum()\<close> with pandas' default \<open>skipna=True\<close>: missing cells are left out, an empty
  or all-missing row sums to 0.\<close>

definition nansum :: "fl list \<Rightarrow> fl" where
  "nansum xs = fsum (dropna xs)"

text \<open>\<open>mean()\<close>, skipping missing values; NaN when nothing is left.\<close>

definition nanmean :: "fl list \<Rightarrow> fl" where
  "nanmean xs = (let ys = dropna xs in
     if ys = [] then NaN else fdiv (fsum ys) (Fin (real (length ys))))"

text \<open>\<open>std()\<close> with pandas' default \<open>ddof=1\<close>: NaN for fewer than two observations.\<close>

definition nanstd :: "fl list \<Rightarrow> fl" where
  "nanstd xs = (let ys = dropna xs; n = length ys in
     if n \<le> 1 then NaN
     else let avg = fdiv (fsum ys) (Fin (real n));
              sqr = map (\<lambda>x. fmul (fsub avg x) (fsub avg x)) ys
          in fsqrt (fdiv (fsum sqr) (Fin (real (n - 1)))))"

text \<open>\<open>min()\<close>, skipping missing values; NaN when nothing is left.\<close>

definition fmin2 :: "fl \<Rightarrow> fl \<Rightarrow> fl" where
  "fmin2 a b = (if fle a b then a else b)"

definition nanmin :: "fl list \<Rightarrow> fl" where
  "nanmin xs = (case dropna xs of [] \<Rightarrow> NaN | y # ys \<Rightarrow> foldl fmin2 y ys)"

text \<open>
  \<open>cumprod()\<close> and \<open>cummax()\<close>: a running product and a running maximum. A missing input
  cell stays missing in the output and is skipped by the accumulator.
\<close>

fun cumprod_from :: "fl \<Rightarrow> fl list \<Rightarrow> fl list" where
  "cumprod_from p [] = []"
| "cumprod_from p (x # xs) =
     (if isna x then NaN # cumprod_from p xs
      else fmul p x # cumprod_from (fmul p x) xs)"

definition cumprod :: "fl list \<Rightarrow> fl list" where
  "cumprod xs = cumprod_from (Fin 1) xs"

fun cummax_from :: "fl \<Rightarrow> fl list \<Rightarrow> fl list" where
  "cummax_from m [] = []"
| "cummax_from m (x # xs) =
     (if isna x then NaN # cummax_from m xs
      else (if fle m x then x else m) # cummax_from (if fle m x then x else m) xs)"

definition cummax :: "fl list \<Rightarrow> fl list" where
  "cummax xs = cummax_from NInf xs"

section \<open>backtest.py: performance statistics\<close>

record perf_stats =
  CAGR :: fl
  Sharpe :: fl
  MaxDD :: fl

text \<open>The equity curve and the drawdown series of \<open>compute_perf_stats\<close>, on the series
  \<open>r\<close> left after \<open>dropna()\<close>.\<close>

definition equity_curve :: "fl list \<Rightarrow> fl list" where
  "equity_curve r = cumprod (map (fadd (Fin 1)) r)"

definition drawdown :: "fl list \<Rightarrow> fl list" where
  "drawdown r = (let equity = equity_curve r; peak = cummax equity in
     map2 (\<lambda>e p. fsub (fdiv e p) (Fin 1)) equity peak)"

definition compute_perf_stats :: "fl list \<Rightarrow> int \<Rightarrow> perf_stats" where
  "compute_perf_stats returns freq =
     (let r = dropna returns in
      if r = [] then \<lparr>CAGR = Fin 0, Sharpe = Fin 0, MaxDD = Fin 0\<rparr>
      else
        let equity = equity_curve r;
            years = (if 0 < freq then real (length r) / real_of_int freq else 0);
            cagr = (if 0 < years then fsub (fpow (last equity) (1 / years)) (Fin 1) else Fin 0);
            sharpe = fmul (fdiv (nanmean r) (fadd (nanstd r) (Fin (1 / 10 ^ 12))))
                          (fsqrt (Fin (real_of_int freq)));
            mdd = nanmin (drawdown r)
        in \<lparr>CAGR = cagr, Sharpe = sharpe, MaxDD = mdd\<rparr>)"

section \<open>backtest.py: the portfolio simulator\<close>

text \<open>
  A DataFrame with a fixed column list is a list of rows, each row the list of the cells of
  the columns in order. \<open>shift(1)\<close> moves every row down by one and puts a missing row
  first; \<open>diff()\<close> is \<open>df - df.shift(1)\<close> and \<open>pct_change()\<close> is
  \<open>df / df.shift(1) - 1\<close>. Missing prices are not forward-filled first, which is the
  default of pandas 3; the properties below hold for either choice, as they do not depend
  on the returns of tickers with missing prices.
\<close>

type_synonym frame = "fl list list"

definition shift1 :: "nat \<Rightarrow> frame \<Rightarrow> frame" where
  "shift1 ncols rows = take (length rows) (replicate ncols NaN # rows)"

definition frame_fillna0 :: "frame \<Rightarrow> frame" where
  "frame_fillna0 rows = map (map fillna0) rows"

definition frame_diff :: "nat \<Rightarrow> frame \<Rightarrow> frame" where
  "frame_diff ncols rows = map2 (map2 fsub) rows (shift1 ncols rows)"

definition pct_change :: "nat \<Rightarrow> frame \<Rightarrow> frame" where
  "pct_change ncols rows =
     map2 (map2 (\<lambda>c p. fsub (fdiv c p) (Fin 1))) rows (shift1 ncols rows)"

definition frame_mul :: "frame \<Rightarrow> frame \<Rightarrow> frame" where
  "frame_mul a b = map2 (map2 fmul) a b"

text \<open>
  The panel is a DataFrame indexed by (date, ticker). It is modelled by its columns, each
  column name once: a column is a Series, the list of ((date, ticker), value) over the rows
  of the panel. The simulator reads the column \<open>close\<close> only. A weight vector is a Series
  indexed by ticker, and \<open>monthly_positions\<close> is a dict: the list of its items, each date
  at most once.
\<close>

type_synonym ('d, 't) close_col = "(('d \<times> 't) \<times> fl) list"
type_synonym ('d, 't) data_frame = "(string \<times> ('d, 't) close_col) list"
type_synonym 't weights = "('t \<times> fl) list"
type_synonym ('d, 't) positions = "('d \<times> 't weights) list"

datatype py_error = RuntimeError string | KeyError string | ValueError

text \<open>\<open>panel["close"]\<close>: the column, or a KeyError when the panel has no column of that
  name.\<close>

definition getitem :: "('d, 't) data_frame \<Rightarrow> string \<Rightarrow> py_error + ('d, 't) close_col" where
  "getitem panel name =
     (case map_of panel name of None \<Rightarrow> Inl (KeyError name) | Some col \<Rightarrow> Inr col)"

text \<open>\<open>unstack("ticker")\<close> raises a ValueError when a pair (date, ticker) occurs twice in
  the index (it cannot reshape duplicate entries).\<close>

definition unstack_ticker :: "('d, 't) close_col \<Rightarrow> py_error + ('d, 't) close_col" where
  "unstack_ticker col = (if distinct (map fst col) then Inr col else Inl ValueError)"

text \<open>\<open>panel["close"].unstack("ticker")\<close>: the close prices ready to be laid out by date
  and ticker, or the error raised on the way.\<close>

definition close_table :: "('d, 't) data_frame \<Rightarrow> py_error + ('d, 't) close_col" where
  "close_table panel =
     (case getitem panel ''close'' of Inl e \<Rightarrow> Inl e | Inr col \<Rightarrow> unstack_ticker col)"

text \<open>
  \<open>pd.DataFrame(monthly_positions).T.sort_index().reindex(columns=daily_ret.columns)\<close>
  needs every weight vector to name each ticker once: pandas raises a ValueError when it
  has to reindex an axis with duplicate labels.
\<close>

definition unique_labels :: "('d, 't) positions \<Rightarrow> bool" where
  "unique_labels monthly_positions = list_all (\<lambda>p. distinct (map fst (snd p))) monthly_positions"

text \<open>\<open>px = panel["close"].unstack("ticker").sort_index()\<close>, for the close prices
  \<open>close\<close>: the sorted dates are the index, the sorted tickers the columns, a pair
  without a price is a missing cell.\<close>

definition px_index :: "('d::linorder, 't) close_col \<Rightarrow> 'd list" where
  "px_index close = sort (remdups (map (\<lambda>r. fst (fst r)) close))"

definition px_columns :: "('d, 't::linorder) close_col \<Rightarrow> 't list" where
  "px_columns close = sort (remdups (map (\<lambda>r. snd (fst r)) close))"

definition px :: "('d::linorder, 't::linorder) close_col \<Rightarrow> frame" where
  "px close = map (\<lambda>d. map (\<lambda>t. case map_of close (d, t) of None \<Rightarrow> NaN | Some v \<Rightarrow> v)
                            (px_columns close)) (px_index close)"

definition daily_ret :: "('d::linorder, 't::linorder) close_col \<Rightarrow> frame" where
  "daily_ret close = pct_change (length (px_columns close)) (px close)"

text \<open>\<open>pos_df\<close>: one row per schedule date in date order, reindexed to the price columns;
  a ticker a weight vector lacks, and a missing weight, are 0.\<close>

definition pos_row :: "'t list \<Rightarrow> 't weights \<Rightarrow> fl list" where
  "pos_row columns w = map (\<lambda>t. fillna0 (case map_of w t of None \<Rightarrow> NaN | Some x \<Rightarrow> x)) columns"

definition pos_df :: "'t list \<Rightarrow> ('d::linorder, 't) positions \<Rightarrow> ('d \<times> fl list) list" where
  "pos_df columns monthly_positions =
     map (\<lambda>(d, w). (d, pos_row columns w)) (sort_key fst monthly_positions)"

text \<open>\<open>reindex(daily_ret.index, method="ffill").fillna(0.0)\<close>: each trading day takes the
  row of the latest schedule date not after it, and a row of zeros when there is none.\<close>

definition ffill_row :: "nat \<Rightarrow> ('d::linorder \<times> fl list) list \<Rightarrow> 'd \<Rightarrow> fl list" where
  "ffill_row ncols pos d =
     (case filter (\<lambda>(k, row). k \<le> d) pos of
        [] \<Rightarrow> map fillna0 (replicate ncols NaN)
      | p # ps \<Rightarrow> map fillna0 (snd (last (p # ps))))"

definition daily_w :: "('d::linorder, 't::linorder) close_col \<Rightarrow> ('d, 't) positions \<Rightarrow> frame" where
  "daily_w close monthly_positions =
     map (ffill_row (length (px_columns close)) (pos_df (px_columns close) monthly_positions))
         (px_index close)"

definition w_change :: "('d::linorder, 't::linorder) close_col \<Rightarrow> ('d, 't) positions \<Rightarrow> frame" where
  "w_change close monthly_positions =
     frame_fillna0 (frame_diff (length (px_columns close)) (daily_w close monthly_positions))"

definition turnover :: "('d::linorder, 't::linorder) close_col \<Rightarrow> ('d, 't) positions \<Rightarrow> fl list" where
  "turnover close monthly_positions =
     map (\<lambda>row. fdiv (nansum (map fabs row)) (Fin 2)) (w_change close monthly_positions)"

definition tc :: "('d::linorder, 't::linorder) close_col \<Rightarrow> ('d, 't) positions \<Rightarrow> fl \<Rightarrow> fl list" where
  "tc close monthly_positions tc_bps =
     map (\<lambda>x. fmul x (fdiv tc_bps (Fin 10000))) (turnover close monthly_positions)"

definition port_ret :: "('d::linorder, 't::linorder) close_col \<Rightarrow> ('d, 't) positions \<Rightarrow> fl \<Rightarrow> fl list" where
  "port_ret close monthly_positions tc_bps =
     map2 (\<lambda>row c. fsub (nansum row) c)
       (frame_mul (frame_fillna0 (shift1 (length (px_columns close)) (daily_w close monthly_positions)))
                  (daily_ret close))
       (tc close monthly_positions tc_bps)"

record bt_stats = perf_stats +
  AvgTurnover :: fl

text \<open>
  The result is the daily return Series (trading date, return) and the statistics. An empty
  schedule raises the RuntimeError of the source; after that check the errors of pandas
  surface in the order of the calls: the KeyError or ValueError of reading the close
  prices, then the ValueError of building the weight table.
\<close>

definition backtest_positions ::
  "('d::linorder, 't::linorder) data_frame \<Rightarrow> ('d, 't) positions \<Rightarrow> fl
     \<Rightarrow> py_error + (('d \<times> fl) list \<times> bt_stats)" where
  "backtest_positions panel monthly_positions tc_bps =
     (if monthly_positions = [] then Inl (RuntimeError ''No positions provided for backtest'')
      else
        case close_table panel of
          Inl e \<Rightarrow> Inl e
        | Inr close \<Rightarrow>
            if \<not> unique_labels monthly_positions then Inl ValueError
            else
              let pr = port_ret close monthly_positions tc_bps;
                  stats = compute_perf_stats pr 252;
                  avg_turnover = nanmean (turnover close monthly_positions)
              in Inr (zip (px_index close) (map fillna0 pr),
                      perf_stats.extend stats \<lparr>AvgTurnover = avg_turnover\<rparr>))"

text \<open>The return of one trading day in the result of the simulator.\<close>

definition daily_return :: "py_error + (('d \<times> fl) list \<times> bt_stats) \<Rightarrow> 'd \<Rightarrow> fl option" where
  "daily_return res d = (case res of Inl e \<Rightarrow> None | Inr r \<Rightarrow> map_of (fst r) d)"

subsection \<open>The lag and cost scenario\<close>

text \<open>Two tickers A and B over the trading days 0, 1, 2, and a schedule with one entry
  on day 0.\<close>

definition c1_close :: "(nat, string) close_col" where
  "c1_close = [((0, ''A''), Fin 100), ((0, ''B''), Fin 50),
               ((1, ''A''), Fin 110), ((1, ''B''), Fin 49),
               ((2, ''A''), Fin 99), ((2, ''B''), Fin 52)]"

definition c1_panel :: "(nat, string) data_frame" where
  "c1_panel = [(''close'', c1_close)]"

definition c1_positions :: "(nat, string) positions" where
  "c1_positions = [(0, [(''A'', Fin (1 / 2)), (''B'', Fin (1 / 2))])]"

text \<open>The same weights scheduled one trading day later.\<close>

definition c1_late_positions :: "(nat, string) positions" where
  "c1_late_positions = [(1, [(''A'', Fin (1 / 2)), (''B'', Fin (1 / 2))])]"

subsection \<open>Auxiliary functions for the drawdown proofs\<close>

text \<open>A finite return above -1: the equity curve stays positive.\<close>

definition above_minus_one :: "fl \<Rightarrow> bool" where
  "above_minus_one x = (case x of Fin a \<Rightarrow> - 1 < a | _ \<Rightarrow> False)"

text \<open>Running products and running maxima of finite values.\<close>

fun rprods :: "real \<Rightarrow> real list \<Rightarrow> real list" where
  "rprods p [] = []"
| "rprods p (a # as) = (p * a) # rprods (p * a) as"

fun rmaxs :: "real \<Rightarrow> real list \<Rightarrow> real list" where
  "rmaxs m [] = []"
| "rmaxs m (e # es) = max m e # rmaxs (max m e) es"

text \<open>The drawdowns of positive values against their running maximum.\<close>

definition rdds :: "real \<Rightarrow> real list \<Rightarrow> real list" where
  "rdds m es = map2 (\<lambda>e p. e / p - 1) es (rmaxs m es)"

section \<open>model.py: walk-forward splits\<close>

text \<open>
  A rebalance date is a calendar date (year, month, day), ordered lexicographically; the
  time of day of a Timestamp is left out (the offsets below do not change it).
  \<open>pd.DateOffset(years=n)\<close> and \<open>pd.DateOffset(months=n)\<close> move the year and the
  month and cut the day back to the last day of the month reached.
\<close>

type_synonym date = "int \<times> nat \<times> nat"

definition is_leap :: "int \<Rightarrow> bool" where
  "is_leap y = (y mod 4 = 0 \<and> (y mod 100 \<noteq> 0 \<or> y mod 400 = 0))"

definition days_in_month :: "int \<Rightarrow> nat \<Rightarrow> nat" where
  "days_in_month y m =
     (if m = 2 then (if is_leap y then 29 else 28)
      else if m = 4 \<or> m = 6 \<or> m = 9 \<or> m = 11 then 30 else 31)"

fun sub_years :: "int \<Rightarrow> date \<Rightarrow> date" where
  "sub_years n (y, m, d) = (y - n, m, min d (days_in_month (y - n) m))"

fun add_months :: "int \<Rightarrow> date \<Rightarrow> date" where
  "add_months n (y, m, d) =
     (let t = y * 12 + (int m - 1) + n; y' = t div 12; m' = nat (t mod 12) + 1
      in (y', m', min d (days_in_month y' m')))"

type_synonym split = "date list \<times> date list"

text \<open>The body of the loop for one candidate \<open>test_start\<close> over the sorted index
  \<open>rebal_dates\<close>: the split to append, or None where the body hits \<open>continue\<close>.\<close>

definition candidate_split :: "date list \<Rightarrow> int \<Rightarrow> int \<Rightarrow> date \<Rightarrow> split option" where
  "candidate_split rebal_dates train_years test_months test_start =
     (let train_end = test_start;
          train_start = sub_years train_years train_end;
          test_end = add_months test_months test_start;
          train_dates = filter (\<lambda>d. train_start \<le> d \<and> d < train_end) rebal_dates;
          test_dates = filter (\<lambda>d. test_start \<le> d \<and> d < test_end) rebal_dates
      in if length train_dates < 24 \<or> length test_dates < 1 then None
         else Some (train_dates, test_dates))"

fun splits_loop :: "date list \<Rightarrow> int \<Rightarrow> int \<Rightarrow> date list \<Rightarrow> split list \<Rightarrow> split list" where
  "splits_loop rebal_dates train_years test_months [] splits = splits"
| "splits_loop rebal_dates train_years test_months (test_start # rest) splits =
     (case candidate_split rebal_dates train_years test_months test_start of
        None \<Rightarrow> splits_loop rebal_dates train_years test_months rest splits
      | Some sp \<Rightarrow> splits_loop rebal_dates train_years test_months rest (splits @ [sp]))"

definition make_walkforward_splits :: "date list \<Rightarrow> int \<Rightarrow> int \<Rightarrow> split list" where
  "make_walkforward_splits rebal_dates train_years test_months =
     (let sorted_dates = sort rebal_dates
      in splits_loop sorted_dates train_years test_months sorted_dates [])"

section \<open>model.py: positions\<close>

text \<open>
  A row of the feature panel, indexed by (date, ticker): the values of the columns
  \<open>feature_cols\<close> in order, and the target \<open>y_fwd_3m\<close>.
\<close>

record 't panel_row =
  row_date :: date
  row_ticker :: 't
  feats :: "fl list"
  y_fwd_3m :: fl

text \<open>
  \<open>MLRegressor\<close> wraps a scikit-learn model: \<open>fit\<close> replaces the fitted state by one
  computed from the training rows, \<open>predict\<close> scores one row (a finite score, or None for
  a missing one). Both are parameters of the model.
\<close>

record 'm regressor =
  fit :: "fl list list \<Rightarrow> fl list \<Rightarrow> 'm"
  predict :: "'m \<Rightarrow> fl list \<Rightarrow> real option"

text \<open>\<open>Series.quantile(q)\<close> for \<open>0 <= q <= 1\<close>: linear interpolation between the two
  closest order statistics, NaN for an empty Series.\<close>

definition quantile :: "real list \<Rightarrow> real \<Rightarrow> fl" where
  "quantile xs q =
     (if xs = [] then NaN
      else let ys = sort xs; n = length ys; pos = q * real (n - 1);
               lo = nat \<lfloor>pos\<rfloor>; hi = min (lo + 1) (n - 1); frac = pos - real lo
           in Fin (ys ! lo + (ys ! hi - ys ! lo) * frac))"

text \<open>\<open>w.loc[labels] = v\<close>: every row of \<open>w\<close> whose label is among \<open>labels\<close> gets \<open>v\<close>.\<close>

definition loc_assign :: "'t weights \<Rightarrow> 't list \<Rightarrow> fl \<Rightarrow> 't weights" where
  "loc_assign w labels v = map (\<lambda>(t, x). (t, if t \<in> set labels then v else x)) w"

definition longs_of :: "real \<Rightarrow> ('t \<times> real) list \<Rightarrow> 't list" where
  "longs_of top_q s =
     (let long_cut = quantile (map snd s) (1 - top_q)
      in map fst (filter (\<lambda>(t, x). fle long_cut (Fin x)) s))"

definition shorts_of :: "real \<Rightarrow> ('t \<times> real) list \<Rightarrow> 't list" where
  "shorts_of bot_q s =
     (let short_cut = quantile (map snd s) bot_q
      in map fst (filter (\<lambda>(t, x). fle (Fin x) short_cut) s))"

text \<open>Lines 95 to 105: the weight vector of one cross-section of scores \<open>s\<close>.\<close>

definition build_weights :: "real \<Rightarrow> real \<Rightarrow> ('t \<times> real) list \<Rightarrow> 't weights" where
  "build_weights top_q bot_q s =
     (let longs = longs_of top_q s;
          shorts = shorts_of bot_q s;
          w = map (\<lambda>(t, x). (t, Fin 0)) s;
          w = (if length longs > 0 then loc_assign w longs (Fin (1 / real (length longs))) else w);
          w = (if length shorts > 0 then loc_assign w shorts (Fin (- 1 / real (length shorts))) else w)
      in w)"

text \<open>The scores of the cross-section of date \<open>d\<close>: the rows of the date, scored, without
  the missing scores.\<close>

definition cross_section :: "'t panel_row list \<Rightarrow> date \<Rightarrow> 't panel_row list" where
  "cross_section usable d = filter (\<lambda>r. row_date r = d) usable"

definition scores :: "'m regressor \<Rightarrow> 'm \<Rightarrow> 't panel_row list \<Rightarrow> ('t \<times> real) list" where
  "scores reg m X =
     List.map_filter (\<lambda>r. case predict reg m (feats r) of None \<Rightarrow> None | Some x \<Rightarrow> Some (row_ticker r, x)) X"

text \<open>The body of the inner loop for one test date \<open>d\<close> with the fitted model \<open>m\<close>:
  the weight vector to store, or None where the body hits \<open>continue\<close>.\<close>

definition date_weights ::
  "'m regressor \<Rightarrow> real \<Rightarrow> real \<Rightarrow> int \<Rightarrow> 't panel_row list \<Rightarrow> 'm \<Rightarrow> date \<Rightarrow> 't weights option" where
  "date_weights reg top_q bot_q min_universe usable m d =
     (let X = cross_section usable d
      in if int (length X) < min_universe then None
         else Some (build_weights top_q bot_q (scores reg m X)))"

fun score_dates ::
  "'m regressor \<Rightarrow> real \<Rightarrow> real \<Rightarrow> int \<Rightarrow> 't panel_row list \<Rightarrow> 'm \<Rightarrow> date list
     \<Rightarrow> (date, 't) positions \<Rightarrow> (date, 't) positions" where
  "score_dates reg top_q bot_q min_universe usable m [] monthly_positions = monthly_positions"
| "score_dates reg top_q bot_q min_universe usable m (d # ds) monthly_positions =
     (case date_weights reg top_q bot_q min_universe usable m d of
        None \<Rightarrow> score_dates reg top_q bot_q min_universe usable m ds monthly_positions
      | Some w \<Rightarrow> score_dates reg top_q bot_q min_universe usable m ds
                    (AList.update d w monthly_positions))"

text \<open>The training rows of a split, and the model fitted on them; None where the split is
  skipped for having fewer than 1000 training rows.\<close>

definition train_rows :: "'t panel_row list \<Rightarrow> date list \<Rightarrow> 't panel_row list" where
  "train_rows usable train_dates = filter (\<lambda>r. row_date r \<in> set train_dates) usable"

definition fit_split :: "'m regressor \<Rightarrow> 't panel_row list \<Rightarrow> date list \<Rightarrow> 'm option" where
  "fit_split reg usable train_dates =
     (let train = train_rows usable train_dates
      in if length train < 1000 then None
         else Some (fit reg (map feats train) (map y_fwd_3m train)))"

text \<open>The outer loop over the splits.\<close>

fun train_splits ::
  "'m regressor \<Rightarrow> real \<Rightarrow> real \<Rightarrow> int \<Rightarrow> 't panel_row list \<Rightarrow> split list
     \<Rightarrow> (date, 't) positions \<Rightarrow> (date, 't) positions" where
  "train_splits reg top_q bot_q min_universe usable [] monthly_positions = monthly_positions"
| "train_splits reg top_q bot_q min_universe usable (sp # splits) monthly_positions =
     (case fit_split reg usable (fst sp) of
        None \<Rightarrow> train_splits reg top_q bot_q min_universe usable splits monthly_positions
      | Some m \<Rightarrow> train_splits reg top_q bot_q min_universe usable splits
                    (score_dates reg top_q bot_q min_universe usable m (snd sp) monthly_positions))"

text \<open>\<open>panel.dropna(subset=feature_cols + ["y_fwd_3m"])\<close>: the rows without a missing
  feature or target.\<close>

definition usable_rows :: "'t panel_row list \<Rightarrow> 't panel_row list" where
  "usable_rows panel =
     filter (\<lambda>r. list_all (\<lambda>x. \<not> isna x) (feats r) \<and> \<not> isna (y_fwd_3m r)) panel"

definition generate_monthly_positions ::
  "'t panel_row list \<Rightarrow> date list \<Rightarrow> real \<Rightarrow> real \<Rightarrow> int \<Rightarrow> 'm regressor \<Rightarrow> (date, 't) positions" where
  "generate_monthly_positions panel rebal_dates top_q bot_q min_universe reg =
     train_splits reg top_q bot_q min_universe (usable_rows panel)
       (make_walkforward_splits rebal_dates 5 6) []"

text \<open>The schedule that one split writes when it is processed alone.\<close>

definition split_result ::
  "'m regressor \<Rightarrow> real \<Rightarrow> real \<Rightarrow> int \<Rightarrow> 't panel_row list \<Rightarrow> split \<Rightarrow> (date, 't) positions" where
  "split_result reg top_q bot_q min_universe usable sp =
     train_splits reg top_q bot_q min_universe usable [sp] []"

text \<open>The sum of the positive entries of a weight vector, \<open>w[w > 0].sum()\<close>.\<close>

definition positive_sum :: "'t weights \<Rightarrow> fl" where
  "positive_sum w = fsum (filter (\<lambda>v. fle (Fin 0) v \<and> v \<noteq> Fin 0) (map snd w))"

subsection \<open>An example: 26 month ends and a regressor that follows the sign of the past targets\<close>

text \<open>
  The rebalance dates are the month ends from January 2010 to February 2012. The panel has
  42 tickers (numbered from 0) on each of the first 24 dates, with feature \<open>k\<close> for ticker
  \<open>k\<close> and target 1, and 3 tickers on the last two dates, with target -1000. The regressor
  keeps the sum of the training targets and scores a row by that sum times the feature.
\<close>

definition c3_dates :: "date list" where
  "c3_dates = map (\<lambda>k. (2010 + int (k div 12), k mod 12 + 1,
                         days_in_month (2010 + int (k div 12)) (k mod 12 + 1))) [0..<26]"

definition c3_rows :: "date \<Rightarrow> nat panel_row list" where
  "c3_rows d =
     map (\<lambda>k. \<lparr>row_date = d, row_ticker = k, feats = [Fin (real k)],
                y_fwd_3m = Fin (if d < (2012, 1, 31) then 1 else - 1000)\<rparr>)
         [0..<(if d < (2012, 1, 31) then 42 else 3)]"

definition c3_panel :: "nat panel_row list" where
  "c3_panel = concat (map c3_rows c3_dates)"

definition c3_regressor :: "fl regressor" where
  "c3_regressor = \<lparr>fit = (\<lambda>X y. fsum y),
                   predict = (\<lambda>m x. case fmul m (hd x) of Fin v \<Rightarrow> Some v | _ \<Rightarrow> None)\<rparr>"

section \<open>Properties of the simulator\<close>

subsection \<open>Special values\<close>

lemma fillna0_not_nan: "fillna0 x \<noteq> NaN"
  by (simp add: fillna0_def isna_def)

lemma fle_zero_fadd: "fle (Fin 0) a \<Longrightarrow> fle (Fin 0) b \<Longrightarrow> fle (Fin 0) (fadd a b)"
  by (cases a; cases b) auto

lemma fle_zero_fsum: "\<forall>x\<in>set xs. fle (Fin 0) x \<Longrightarrow> fle (Fin 0) (fsum xs)"
  by (induction xs) (auto intro: fle_zero_fadd)

lemma fle_zero_nansum: "\<forall>x\<in>set xs. fle (Fin 0) x \<Longrightarrow> fle (Fin 0) (nansum xs)"
  by (simp add: nansum_def dropna_def fle_zero_fsum)

lemma fle_zero_fabs: "x \<noteq> NaN \<Longrightarrow> fle (Fin 0) (fabs x)"
  by (cases x) auto

lemma fle_zero_half: "fle (Fin 0) x \<Longrightarrow> fle (Fin 0) (fdiv x (Fin 2))"
  by (cases x) auto

lemma fsum_zeros: "\<forall>x\<in>set xs. x = Fin 0 \<Longrightarrow> fsum xs = Fin 0"
  by (induction xs) auto

lemma nansum_zeros: "\<forall>x\<in>set xs. x = Fin 0 \<or> x = NaN \<Longrightarrow> nansum xs = Fin 0"
  unfolding nansum_def dropna_def by (rule fsum_zeros) (auto simp: isna_def)

lemma fsub_self_fillna0: "fillna0 (fsub x x) = Fin 0"
  by (cases x) (auto simp: fsub_def fillna0_def isna_def)

lemma shift1_nth:
  "i < length rows \<Longrightarrow> shift1 n rows ! i = (if i = 0 then replicate n NaN else rows ! (i - 1))"
  by (cases i) (auto simp: shift1_def)

lemma length_shift1: "length (shift1 n rows) = length rows"
  by (simp add: shift1_def)

lemma length_turnover: "length (turnover close mp) = length (px_index close)"
  by (simp add: turnover_def w_change_def frame_fillna0_def frame_diff_def daily_w_def length_shift1)

lemma w_change_nth:
  assumes "i < length (px_index close)"
  shows "w_change close mp ! i =
     map fillna0 (map2 fsub (daily_w close mp ! i)
        (if i = 0 then replicate (length (px_columns close)) NaN else daily_w close mp ! (i - 1)))"
proof -
  have len: "i < length (daily_w close mp)" using assms by (simp add: daily_w_def)
  then show ?thesis
    by (simp add: w_change_def frame_fillna0_def frame_diff_def length_shift1 shift1_nth)
qed

lemma turnover_nth:
  assumes "i < length (px_index close)"
  shows "turnover close mp ! i = fdiv (nansum (map fabs (w_change close mp ! i))) (Fin 2)"
proof -
  have "i < length (w_change close mp)"
    using assms by (simp add: w_change_def frame_fillna0_def frame_diff_def length_shift1 daily_w_def)
  then show ?thesis by (simp add: turnover_def)
qed

lemma turnover_nonneg:
  assumes "i < length (px_index close)"
  shows "fle (Fin 0) (turnover close mp ! i)"
proof -
  have "\<forall>x\<in>set (map fabs (w_change close mp ! i)). fle (Fin 0) x"
    by (auto simp: w_change_nth[OF assms] fle_zero_fabs fillna0_not_nan)
  then show ?thesis
    by (simp only: turnover_nth[OF assms] fle_zero_half fle_zero_nansum)
qed

lemma map2_fsub_self: "map fillna0 (map2 fsub xs xs) = replicate (length xs) (Fin 0)"
  by (induction xs) (auto simp: fsub_self_fillna0)

lemma turnover_unchanged:
  assumes "i < length (px_index close)" "0 < i" "daily_w close mp ! i = daily_w close mp ! (i - 1)"
  shows "turnover close mp ! i = Fin 0"
proof -
  have "w_change close mp ! i = map fillna0 (map2 fsub (daily_w close mp ! i) (daily_w close mp ! i))"
    unfolding w_change_nth[OF assms(1)] using assms(2,3) by simp
  also have "\<dots> = replicate (length (daily_w close mp ! i)) (Fin 0)"
    by (rule map2_fsub_self)
  finally have "w_change close mp ! i = replicate (length (daily_w close mp ! i)) (Fin 0)" .
  then have "nansum (map fabs (w_change close mp ! i)) = Fin 0"
    by (simp add: nansum_zeros)
  then show ?thesis by (simp add: turnover_nth[OF assms(1)])
qed

subsection \<open>An all-zero schedule\<close>

lemma pos_row_zero:
  assumes "\<forall>(t, x)\<in>set w. x = Fin 0"
  shows "pos_row cols w = replicate (length cols) (Fin 0)"
proof -
  have "fillna0 (case map_of w t of None \<Rightarrow> NaN | Some x \<Rightarrow> x) = Fin 0" for t
  proof (cases "map_of w t")
    case None
    then show ?thesis by (simp add: fillna0_def isna_def)
  next
    case (Some x)
    then have "(t, x) \<in> set w" by (rule map_of_SomeD)
    with assms have "x = Fin 0" by auto
    with Some show ?thesis by (simp add: fillna0_def isna_def)
  qed
  then show ?thesis by (simp add: pos_row_def map_replicate_const)
qed

lemma pos_df_zero:
  assumes "\<forall>(d, w)\<in>set mp. \<forall>(t, x)\<in>set w. x = Fin 0"
  shows "\<forall>(k, row)\<in>set (pos_df cols mp). row = replicate (length cols) (Fin 0)"
  using assms by (auto simp: pos_df_def intro!: pos_row_zero)

lemma ffill_row_zero:
  assumes "\<forall>(k, row)\<in>set pos. row = replicate n (Fin 0)"
  shows "ffill_row n pos d = replicate n (Fin 0)"
proof (cases "filter (\<lambda>(k, row). k \<le> d) pos")
  case Nil
  then show ?thesis by (simp add: ffill_row_def fillna0_def isna_def)
next
  case (Cons p ps)
  have "last (p # ps) \<in> set (filter (\<lambda>(k, row). k \<le> d) pos)"
    unfolding Cons by (rule last_in_set) simp
  then have "last (p # ps) \<in> set pos" by simp
  with assms have "snd (last (p # ps)) = replicate n (Fin 0)" by (auto simp: case_prod_beta)
  then show ?thesis by (simp add: ffill_row_def Cons fillna0_def isna_def del: last.simps)
qed

lemma daily_w_zero:
  assumes "\<forall>(d, w)\<in>set mp. \<forall>(t, x)\<in>set w. x = Fin 0"
  shows "daily_w close mp =
     replicate (length (px_index close)) (replicate (length (px_columns close)) (Fin 0))"
proof -
  have "ffill_row (length (px_columns close)) (pos_df (px_columns close) mp) =
      (\<lambda>d. replicate (length (px_columns close)) (Fin 0))"
    by (rule ext) (rule ffill_row_zero[OF pos_df_zero[OF assms]])
  then show ?thesis by (simp add: daily_w_def map_replicate_const)
qed

lemma fmul_zero_cases: "fmul (Fin 0) b = Fin 0 \<or> fmul (Fin 0) b = NaN"
  by (cases b) auto

lemma turnover_zero:
  assumes "\<forall>(d, w)\<in>set mp. \<forall>(t, x)\<in>set w. x = Fin 0"
  shows "turnover close mp = replicate (length (px_index close)) (Fin 0)"
proof (rule nth_equalityI)
  show "length (turnover close mp) = length (replicate (length (px_index close)) (Fin 0))"
    by (simp add: length_turnover)
next
  fix i assume "i < length (turnover close mp)"
  then have i: "i < length (px_index close)" by (simp add: length_turnover)
  have "\<forall>x\<in>set (w_change close mp ! i). x = Fin 0"
    unfolding w_change_nth[OF i] daily_w_zero[OF assms] using i
    by (auto simp: fsub_def fillna0_def isna_def dest!: set_zip_leftD set_zip_rightD in_set_zipE)
  then have "nansum (map fabs (w_change close mp ! i)) = Fin 0"
    by (intro nansum_zeros) auto
  then show "turnover close mp ! i = replicate (length (px_index close)) (Fin 0) ! i"
    using i by (simp add: turnover_nth[OF i])
qed

lemma length_port_ret: "length (port_ret close mp tc_bps) = length (px_index close)"
  by (simp add: port_ret_def frame_mul_def frame_fillna0_def length_shift1 tc_def length_turnover
      daily_w_def daily_ret_def pct_change_def px_def)

lemma port_ret_zero:
  assumes "\<forall>(d, w)\<in>set mp. \<forall>(t, x)\<in>set w. x = Fin 0"
  shows "map fillna0 (port_ret close mp tc_bps) = replicate (length (px_index close)) (Fin 0)"
proof -
  let ?n = "length (px_columns close)"
  have rows: "\<forall>row\<in>set (frame_fillna0 (shift1 ?n (daily_w close mp))). \<forall>x\<in>set row. x = Fin 0"
    unfolding daily_w_zero[OF assms] frame_fillna0_def shift1_def
    by (auto simp: fillna0_def isna_def dest!: in_set_takeD)
  have prod: "\<forall>row\<in>set (frame_mul (frame_fillna0 (shift1 ?n (daily_w close mp))) (daily_ret close)).
      nansum row = Fin 0"
  proof
    fix row assume "row \<in> set (frame_mul (frame_fillna0 (shift1 ?n (daily_w close mp))) (daily_ret close))"
    then obtain a b where ab: "a \<in> set (frame_fillna0 (shift1 ?n (daily_w close mp)))"
        and row: "row = map2 fmul a b"
      unfolding frame_mul_def by (auto dest: set_zip_leftD)
    have "\<forall>x\<in>set row. x = Fin 0 \<or> x = NaN"
    proof
      fix x assume "x \<in> set row"
      then obtain u v where "u \<in> set a" "x = fmul u v"
        unfolding row by (auto dest: set_zip_leftD)
      with rows ab have "x = fmul (Fin 0) v" by auto
      then show "x = Fin 0 \<or> x = NaN" using fmul_zero_cases by simp
    qed
    then show "nansum row = Fin 0" by (rule nansum_zeros)
  qed
  have cost: "\<forall>c\<in>set (tc close mp tc_bps). c = Fin 0 \<or> c = NaN"
    unfolding tc_def turnover_zero[OF assms] using fmul_zero_cases by auto
  have "\<forall>x\<in>set (map fillna0 (port_ret close mp tc_bps)). x = Fin 0"
  proof
    fix x assume "x \<in> set (map fillna0 (port_ret close mp tc_bps))"
    then obtain row c where "row \<in> set (frame_mul (frame_fillna0 (shift1 ?n (daily_w close mp))) (daily_ret close))"
      "c \<in> set (tc close mp tc_bps)" "x = fillna0 (fsub (nansum row) c)"
      unfolding port_ret_def by (auto dest: set_zip_leftD set_zip_rightD)
    with prod cost show "x = Fin 0" by (auto simp: fsub_def fillna0_def isna_def)
  qed
  moreover have "length (map fillna0 (port_ret close mp tc_bps)) = length (px_index close)"
    by (simp add: length_port_ret)
  ultimately show ?thesis by (metis replicate_length_same)
qed

subsection \<open>When the simulator returns\<close>

lemma close_table_Inr_iff:
  "(close_table panel = Inr close) =
     (map_of panel ''close'' = Some close \<and> distinct (map fst close))"
  by (auto simp: close_table_def getitem_def unstack_ticker_def split: option.splits)

lemma backtest_positions_Inr:
  assumes "monthly_positions \<noteq> []" "close_table panel = Inr close" "unique_labels monthly_positions"
  shows "backtest_positions panel monthly_positions tc_bps =
     Inr (zip (px_index close) (map fillna0 (port_ret close monthly_positions tc_bps)),
          perf_stats.extend (compute_perf_stats (port_ret close monthly_positions tc_bps) 252)
            \<lparr>AvgTurnover = nanmean (turnover close monthly_positions)\<rparr>)"
  using assms by (simp add: backtest_positions_def Let_def)

subsection \<open>The one-day lag and the day of the cost\<close>

lemma daily_w_no_nan:
  assumes "j < length (px_index close)"
  shows "map fillna0 (daily_w close mp ! j) = daily_w close mp ! j"
proof -
  have "fillna0 (fillna0 x) = fillna0 x" for x by (simp add: fillna0_def isna_def)
  then have "map fillna0 (ffill_row n pos d) = ffill_row n pos d" for n d
      and pos :: "('a \<times> fl list) list"
    by (simp add: ffill_row_def split: list.splits)
  then show ?thesis using assms by (simp add: daily_w_def)
qed

text \<open>
  After the first trading day, the return of a day is the weights of the day before times
  the returns of the day, less the cost of the turnover of the day itself: the cost of a
  change of weights falls on the day of the change, and the new weights earn from the
  next day on.
\<close>

lemma port_ret_nth:
  assumes "0 < i" "i < length (px_index close)"
  shows "port_ret close mp tc_bps ! i =
     fsub (nansum (map2 fmul (daily_w close mp ! (i - 1)) (daily_ret close ! i)))
          (fmul (turnover close mp ! i) (fdiv tc_bps (Fin 10000)))"
proof -
  let ?n = "length (px_columns close)"
  have len: "length (daily_w close mp) = length (px_index close)"
      "length (daily_ret close) = length (px_index close)"
    by (simp_all add: daily_w_def daily_ret_def pct_change_def px_def length_shift1)
  have prev: "map fillna0 (shift1 ?n (daily_w close mp) ! i) = daily_w close mp ! (i - 1)"
    using assms len by (simp add: shift1_nth daily_w_no_nan)
  have row: "frame_mul (frame_fillna0 (shift1 ?n (daily_w close mp))) (daily_ret close) ! i =
      map2 fmul (daily_w close mp ! (i - 1)) (daily_ret close ! i)"
    using assms len prev by (simp add: frame_mul_def frame_fillna0_def length_shift1)
  have cost: "tc close mp tc_bps ! i = fmul (turnover close mp ! i) (fdiv tc_bps (Fin 10000))"
    using assms by (simp add: tc_def length_turnover)
  show ?thesis
    using assms len row cost
    by (simp add: port_ret_def frame_mul_def frame_fillna0_def length_shift1 tc_def length_turnover)
qed

subsection \<open>The scenario, evaluated\<close>

lemma c1_close_table: "close_table c1_panel = Inr c1_close"
  by (simp add: close_table_Inr_iff c1_panel_def) (simp add: c1_close_def)

lemma c1_unique_labels: "unique_labels c1_positions"
  by (simp add: unique_labels_def c1_positions_def)

lemma c1_index: "px_index c1_close = [0, 1, 2]"
  by code_simp

lemma c1_daily_w: "daily_w c1_close c1_positions =
   [[Fin (1 / 2), Fin (1 / 2)], [Fin (1 / 2), Fin (1 / 2)], [Fin (1 / 2), Fin (1 / 2)]]"
  by code_simp

lemma c1_tc: "tc c1_close c1_positions (Fin 5) = [Fin 0, Fin 0, Fin 0]"
  by code_simp

lemma c1_port_ret: "port_ret c1_close c1_positions (Fin 5) = [Fin 0, Fin (1 / 25), Fin (- 19 / 980)]"
  by code_simp

lemma c1_series:
  "map_sum id fst (backtest_positions c1_panel c1_positions (Fin 5)) =
     Inr (zip [0, 1, 2] (map fillna0 (port_ret c1_close c1_positions (Fin 5))))"
proof -
  have "c1_positions \<noteq> []" by (simp add: c1_positions_def)
  from backtest_positions_Inr[OF this c1_close_table c1_unique_labels]
  show ?thesis by (simp add: c1_index)
qed

lemma c1_daily_return:
  "daily_return (backtest_positions c1_panel c1_positions (Fin 5)) d =
     map_of (zip [0, 1, 2] (map fillna0 (port_ret c1_close c1_positions (Fin 5)))) d"
  using c1_series by (auto simp: daily_return_def split: sum.splits)

text \<open>
  The same weights scheduled on day 1 instead: the turnover of 0.5 and its cost of
  0.5 * 0.0005 fall on day 1, the day the projected weights change, and day 2 earns the
  return of the new weights without a cost.
\<close>

lemma c1_late_entry:
  "turnover c1_close c1_late_positions = [Fin 0, Fin (1 / 2), Fin 0] \<and>
   port_ret c1_close c1_late_positions (Fin 5) = [Fin 0, Fin (- 1 / 4000), Fin (- 19 / 980)]"
  by code_simp

text \<open>
  C1 (as amended). In the scenario the return of day 1 is
  0.5 * (110/100 - 1) + 0.5 * (49/50 - 1) = 0.04 and the return of day 2 is
  0.5 * (99/110 - 1) + 0.5 * (52/49 - 1) = -19/980 (about -0.0194), each the weights of the
  day before times the returns of the day, with no cost: the cost of a change of weights
  is charged on the day the projected weights change, not on the day after, and on days 1
  and 2 the projected weights are those of the day before. Nothing is stated about day 0,
  the day of the entry.
\<close>

theorem scenario_returns:
  "daily_return (backtest_positions c1_panel c1_positions (Fin 5)) 1 =
     Some (Fin (1 / 2 * (110 / 100 - 1) + 1 / 2 * (49 / 50 - 1))) \<and>
   daily_return (backtest_positions c1_panel c1_positions (Fin 5)) 2 =
     Some (Fin (1 / 2 * (99 / 110 - 1) + 1 / 2 * (52 / 49 - 1))) \<and>
   daily_w c1_close c1_positions ! 1 = daily_w c1_close c1_positions ! 0 \<and>
   daily_w c1_close c1_positions ! 2 = daily_w c1_close c1_positions ! 1 \<and>
   tc c1_close c1_positions (Fin 5) ! 1 = Fin 0 \<and>
   tc c1_close c1_positions (Fin 5) ! 2 = Fin 0"
  by (simp add: c1_daily_return c1_port_ret c1_daily_w c1_tc fillna0_def isna_def)

text \<open>
  The return of day 1 is 0.04, not the 0.03975 that an entry cost of 0.5 * 0.0005 on that
  day would leave.
\<close>

theorem scenario_day1_counterexample:
  "daily_return (backtest_positions c1_panel c1_positions (Fin 5)) 1 = Some (Fin (1 / 25)) \<and>
   Fin (1 / 25) \<noteq> Fin (1 / 2 * (110 / 100 - 1) + 1 / 2 * (49 / 50 - 1) - 1 / 2 * (5 / 10000))"
  by (simp add: c1_daily_return c1_port_ret fillna0_def isna_def)

text \<open>
  C5. A schedule that is not empty and whose weight vectors hold only zeros gives a daily
  return of 0 on every trading date of the price index, whatever the prices (missing and
  zero prices included) and whatever the cost rate. The only other outcome is an error of
  pandas on reading the inputs: a panel without unique close prices, a weight vector with
  a repeated ticker.
\<close>

theorem zero_schedule_zero_returns:
  assumes "monthly_positions \<noteq> []"
    and "\<forall>(d, w)\<in>set monthly_positions. \<forall>(t, x)\<in>set w. x = Fin 0"
  shows "map_sum id fst (backtest_positions panel monthly_positions tc_bps) =
     (case close_table panel of
        Inl e \<Rightarrow> Inl e
      | Inr close \<Rightarrow>
          if unique_labels monthly_positions
          then Inr (map (\<lambda>d. (d, Fin 0)) (px_index close))
          else Inl ValueError)"
proof (cases "close_table panel")
  case (Inl e)
  then show ?thesis using assms(1) by (simp add: backtest_positions_def)
next
  case (Inr close)
  have z: "zip (px_index close) (replicate (length (px_index close)) (Fin 0)) =
      map (\<lambda>d. (d, Fin 0)) (px_index close)"
    by (induction "px_index close") (auto simp: zip_replicate2)
  show ?thesis
  proof (cases "unique_labels monthly_positions")
    case True
    from backtest_positions_Inr[OF assms(1) Inr True] show ?thesis
      by (simp add: Inr True port_ret_zero[OF assms(2)] z)
  next
    case False
    then show ?thesis using assms(1) Inr by (simp add: backtest_positions_def)
  qed
qed

theorem zero_schedule_zero_returns_witness:
  "[(0::nat, [(''A'', Fin 0), (''B'', Fin 0)])] \<noteq> [] \<and>
   close_table c1_panel = Inr c1_close \<and>
   unique_labels [(0::nat, [(''A'', Fin 0), (''B'', Fin 0)])] \<and>
   map_sum id fst (backtest_positions c1_panel [(0, [(''A'', Fin 0), (''B'', Fin 0)])] (Fin 5)) =
     Inr [(0, Fin 0), (1, Fin 0), (2, Fin 0)]"
proof -
  have h1: "[(0::nat, [(''A'', Fin 0), (''B'', Fin 0)])] \<noteq> []" by simp
  have h2: "\<forall>(d, w)\<in>set [(0::nat, [(''A'', Fin 0), (''B'', Fin 0)])]. \<forall>(t, x)\<in>set w. x = Fin 0"
    by simp
  have u: "unique_labels [(0::nat, [(''A'', Fin 0), (''B'', Fin 0)])]"
    by (simp add: unique_labels_def)
  show ?thesis
    using zero_schedule_zero_returns[OF h1 h2, of c1_panel "Fin 5"] c1_index c1_close_table u
    by simp
qed

text \<open>
  C8 (as amended). The simulator raises its RuntimeError exactly when the schedule is
  empty. For a schedule that is not empty it returns a result exactly when the panel has a
  close column without a repeated (date, ticker) pair and no weight vector repeats a
  ticker; it raises a KeyError when the panel has no close column, and a ValueError in the
  remaining cases.
\<close>

theorem raises_or_returns:
  "(backtest_positions panel monthly_positions tc_bps =
      Inl (RuntimeError ''No positions provided for backtest'')) = (monthly_positions = []) \<and>
   (backtest_positions panel monthly_positions tc_bps = Inl (KeyError ''close'')) =
      (monthly_positions \<noteq> [] \<and> map_of panel ''close'' = None) \<and>
   (backtest_positions panel monthly_positions tc_bps = Inl ValueError) =
      (monthly_positions \<noteq> [] \<and>
       (\<exists>col. map_of panel ''close'' = Some col \<and>
          \<not> (distinct (map fst col) \<and> unique_labels monthly_positions))) \<and>
   (\<exists>r. backtest_positions panel monthly_positions tc_bps = Inr r) =
      (monthly_positions \<noteq> [] \<and>
       (\<exists>col. map_of panel ''close'' = Some col \<and> distinct (map fst col)) \<and>
       unique_labels monthly_positions)"
  by (auto simp: backtest_positions_def close_table_def getitem_def unstack_ticker_def Let_def
      split: option.splits)

theorem raises_or_returns_witness:
  "c1_positions \<noteq> [] \<and> map_of c1_panel ''close'' = Some c1_close \<and>
   distinct (map fst c1_close) \<and> unique_labels c1_positions \<and>
   (\<exists>r. backtest_positions c1_panel c1_positions (Fin 5) = Inr r)"
proof -
  have a: "map_of c1_panel ''close'' = Some c1_close" by (simp add: c1_panel_def)
  have b: "distinct (map fst c1_close)" by (simp add: c1_close_def)
  have c: "c1_positions \<noteq> []" by (simp add: c1_positions_def)
  from raises_or_returns[of c1_panel c1_positions "Fin 5"] a b c c1_unique_labels
  show ?thesis by auto
qed

text \<open>
  A schedule that is not empty, and a panel with an open column but no close column: the
  simulator raises a KeyError.
\<close>

theorem missing_close_counterexample:
  "c1_positions \<noteq> [] \<and>
   backtest_positions [(''open'', c1_close)] c1_positions (Fin 5) = Inl (KeyError ''close'')"
  by (simp add: backtest_positions_def close_table_def getitem_def c1_positions_def)

text \<open>
  C9. There is one turnover value per trading day; each is at least 0, and it is 0 on a day
  whose projected weight row equals the row of the day before.
\<close>

theorem turnover_nonneg_zero_when_unchanged:
  assumes "i < length (px_index close)"
  shows "length (turnover close monthly_positions) = length (px_index close) \<and>
     fle (Fin 0) (turnover close monthly_positions ! i) \<and>
     (0 < i \<and> daily_w close monthly_positions ! i = daily_w close monthly_positions ! (i - 1)
        \<longrightarrow> turnover close monthly_positions ! i = Fin 0)"
  using assms by (simp add: length_turnover turnover_nonneg turnover_unchanged)

theorem turnover_nonneg_zero_when_unchanged_witness:
  "(1::nat) < length (px_index c1_close) \<and>
   daily_w c1_close c1_positions ! 1 = daily_w c1_close c1_positions ! (1 - 1) \<and>
   fle (Fin 0) (turnover c1_close c1_positions ! 1) \<and>
   turnover c1_close c1_positions ! 1 = Fin 0"
proof -
  have h: "(1::nat) < length (px_index c1_close)" by (simp add: c1_index)
  have same: "daily_w c1_close c1_positions ! 1 = daily_w c1_close c1_positions ! (1 - 1)"
    by (simp add: c1_daily_w)
  from turnover_nonneg_zero_when_unchanged[OF h, of c1_positions] same
  show ?thesis using h by simp
qed

section \<open>Properties of the performance statistics\<close>

subsection \<open>An all-zero series\<close>

lemma all_zero_replicate: "\<forall>x\<in>set xs. x = Fin 0 \<Longrightarrow> xs = replicate (length xs) (Fin 0)"
  by (induction xs) auto

lemma dropna_replicate_Fin: "dropna (replicate n (Fin a)) = replicate n (Fin a)"
  by (simp add: dropna_def isna_def)

lemma fsum_replicate_zero: "fsum (replicate n (Fin 0)) = Fin 0"
  by (induction n) auto

lemma nanmean_zeros: "0 < n \<Longrightarrow> nanmean (replicate n (Fin 0)) = Fin 0"
  by (simp add: nanmean_def dropna_replicate_Fin fsum_replicate_zero)

lemma nanstd_zeros: "2 \<le> n \<Longrightarrow> nanstd (replicate n (Fin 0)) = Fin 0"
  by (simp add: nanstd_def dropna_replicate_Fin fsum_replicate_zero fsub_def Let_def)

lemma cumprod_from_ones: "cumprod_from (Fin 1) (replicate n (Fin 1)) = replicate n (Fin 1)"
  by (induction n) (auto simp: isna_def)

lemma equity_curve_zeros: "equity_curve (replicate n (Fin 0)) = replicate n (Fin 1)"
  by (simp add: equity_curve_def cumprod_def cumprod_from_ones)

lemma cummax_from_ones:
  "m = NInf \<or> m = Fin 1 \<Longrightarrow> cummax_from m (replicate n (Fin 1)) = replicate n (Fin 1)"
  by (induction n arbitrary: m) (auto simp: isna_def)

lemma drawdown_zeros: "drawdown (replicate n (Fin 0)) = replicate n (Fin 0)"
  by (simp add: drawdown_def equity_curve_zeros cummax_def cummax_from_ones zip_replicate fsub_def Let_def)

lemma foldl_fmin2_zeros: "foldl fmin2 (Fin 0) (replicate k (Fin 0)) = Fin 0"
  by (induction k) (auto simp: fmin2_def)

lemma nanmin_zeros:
  assumes "0 < n"
  shows "nanmin (replicate n (Fin 0)) = Fin 0"
proof (cases n)
  case 0
  then show ?thesis using assms by simp
next
  case (Suc k)
  have "dropna (replicate (Suc k) (Fin 0)) = Fin 0 # replicate k (Fin 0)"
    unfolding dropna_replicate_Fin by simp
  then show ?thesis by (simp add: nanmin_def Suc foldl_fmin2_zeros del: replicate_Suc)
qed

lemma compute_perf_stats_zeros:
  assumes "2 \<le> n" "0 \<le> freq"
  shows "compute_perf_stats (replicate n (Fin 0)) freq = \<lparr>CAGR = Fin 0, Sharpe = Fin 0, MaxDD = Fin 0\<rparr>"
proof -
  have n: "0 < n" "replicate n (Fin 0) \<noteq> []" using assms(1) by auto
  have sharpe: "fmul (fdiv (nanmean (replicate n (Fin 0))) (fadd (nanstd (replicate n (Fin 0))) (Fin (1 / 10 ^ 12))))
          (fsqrt (Fin (real_of_int freq))) = Fin 0"
    using assms by (simp add: nanmean_zeros nanstd_zeros)
  have cagr: "fsub (fpow (last (replicate n (Fin 1))) y) (Fin 1) = Fin 0" for y
    using n by (simp add: fsub_def)
  show ?thesis
    unfolding compute_perf_stats_def Let_def dropna_replicate_Fin equity_curve_zeros
      drawdown_zeros sharpe cagr
    using n by (simp add: nanmin_zeros)
qed


text \<open>
  C7 (as amended). A series that is empty once its missing values are dropped gets the
  zeroed result, and so does a series of at least two zeros (for a frequency that is not
  negative): CAGR = 0, Sharpe = 0, MaxDD = 0.
\<close>

theorem zero_series_stats:
  "(dropna returns = [] \<longrightarrow>
      compute_perf_stats returns freq = \<lparr>CAGR = Fin 0, Sharpe = Fin 0, MaxDD = Fin 0\<rparr>) \<and>
   ((\<forall>x\<in>set returns. x = Fin 0) \<and> 2 \<le> length returns \<and> 0 \<le> freq \<longrightarrow>
      compute_perf_stats returns freq = \<lparr>CAGR = Fin 0, Sharpe = Fin 0, MaxDD = Fin 0\<rparr>)"
proof (intro conjI impI)
  assume "dropna returns = []"
  then show "compute_perf_stats returns freq = \<lparr>CAGR = Fin 0, Sharpe = Fin 0, MaxDD = Fin 0\<rparr>"
    by (simp add: compute_perf_stats_def)
next
  assume a: "(\<forall>x\<in>set returns. x = Fin 0) \<and> 2 \<le> length returns \<and> 0 \<le> freq"
  then have "returns = replicate (length returns) (Fin 0)" by (simp add: all_zero_replicate)
  then show "compute_perf_stats returns freq = \<lparr>CAGR = Fin 0, Sharpe = Fin 0, MaxDD = Fin 0\<rparr>"
    using a compute_perf_stats_zeros[of "length returns" freq] by simp
qed

theorem zero_series_stats_witness:
  "dropna [NaN, NaN] = [] \<and>
   compute_perf_stats [NaN, NaN] 252 = \<lparr>CAGR = Fin 0, Sharpe = Fin 0, MaxDD = Fin 0\<rparr> \<and>
   (2::nat) \<le> length [Fin 0, Fin 0, Fin 0] \<and>
   compute_perf_stats [Fin 0, Fin 0, Fin 0] 252 = \<lparr>CAGR = Fin 0, Sharpe = Fin 0, MaxDD = Fin 0\<rparr>"
  using zero_series_stats[of "[NaN, NaN]" 252] zero_series_stats[of "[Fin 0, Fin 0, Fin 0]" 252]
  by (simp add: dropna_def isna_def)

text \<open>
  A series of a single zero has no sample standard deviation (\<open>ddof=1\<close>), and its
  Sharpe ratio is NaN, not 0.
\<close>

theorem single_zero_counterexample:
  "Sharpe (compute_perf_stats [Fin 0] 252) = NaN \<and>
   Sharpe (compute_perf_stats [Fin 0] 252) \<noteq> Fin 0"
  by (simp add: compute_perf_stats_def dropna_def isna_def equity_curve_def cumprod_def
      nanstd_def nanmean_def nanmin_def drawdown_def cummax_def fsub_def Let_def)

subsection \<open>The maximum drawdown\<close>

lemma cumprod_from_Fin: "cumprod_from (Fin p) (map Fin as) = map Fin (rprods p as)"
  by (induction as arbitrary: p) (auto simp: isna_def)

lemma cummax_from_Fin: "cummax_from (Fin m) (map Fin es) = map Fin (rmaxs m es)"
  by (induction es arbitrary: m) (auto simp: isna_def max_def)

lemma cummax_Fin_Cons: "cummax (map Fin (e # es)) = map Fin (e # rmaxs e es)"
  by (simp add: cummax_def isna_def cummax_from_Fin[symmetric])

lemma rprods_pos: "0 < p \<Longrightarrow> \<forall>a\<in>set as. 0 < a \<Longrightarrow> \<forall>e\<in>set (rprods p as). 0 < e"
proof (induction as arbitrary: p)
  case Nil
  then show ?case by simp
next
  case (Cons a as)
  have "0 < p * a" using Cons.prems by simp
  moreover have "\<forall>e\<in>set (rprods (p * a) as). 0 < e"
    using Cons.IH[OF \<open>0 < p * a\<close>] Cons.prems by simp
  ultimately show ?case by simp
qed

lemma rdds_Cons: "rdds m (e # es) = (e / max m e - 1) # rdds (max m e) es"
  by (simp add: rdds_def)

lemma rdds_nonpos:
  "0 < m \<Longrightarrow> \<forall>e\<in>set es. 0 < e \<Longrightarrow> \<forall>d\<in>set (rdds m es). d \<le> 0"
proof (induction es arbitrary: m)
  case Nil
  then show ?case by (simp add: rdds_def)
next
  case (Cons e es)
  have "0 < max m e" using Cons.prems by auto
  moreover have "e / max m e \<le> 1" using \<open>0 < max m e\<close> by (simp add: divide_le_eq)
  ultimately show ?case using Cons by (auto simp: rdds_Cons)
qed

lemma rdds_zero_iff_sorted:
  "0 < m \<Longrightarrow> \<forall>e\<in>set es. 0 < e \<Longrightarrow> (\<forall>d\<in>set (rdds m es). d = 0) = sorted (m # es)"
proof (induction es arbitrary: m)
  case Nil
  then show ?case by (simp add: rdds_def)
next
  case (Cons e es)
  have pos: "0 < max m e" "0 < e" using Cons.prems by auto
  have head: "(e / max m e - 1 = 0) = (m \<le> e)"
    using pos by (auto simp: max_def)
  show ?case
  proof (cases "m \<le> e")
    case True
    then have "max m e = e" by simp
    have "(\<forall>d\<in>set (rdds e es). d = 0) = sorted (e # es)"
      using Cons.IH[of e] Cons.prems pos by simp
    moreover have "sorted (m # e # es) = sorted (e # es)"
      using True by auto
    ultimately show ?thesis
      using True \<open>max m e = e\<close> pos by (simp add: rdds_Cons del: sorted_simps)
  next
    case False
    with head show ?thesis by (auto simp: rdds_Cons)
  qed
qed

lemma foldl_fmin2_Fin: "foldl fmin2 (Fin y) (map Fin ys) = Fin (foldl min y ys)"
  by (induction ys arbitrary: y) (auto simp: fmin2_def min_def)

lemma foldl_min_le: "\<forall>d\<in>set (y # ys). d \<le> (0::real) \<Longrightarrow> foldl min y ys \<le> 0"
  by (induction ys arbitrary: y) (auto simp: min_def)

lemma foldl_min_zero_iff:
  "\<forall>d\<in>set (y # ys). d \<le> (0::real) \<Longrightarrow> (foldl min y ys = 0) = (\<forall>d\<in>set (y # ys). d = 0)"
proof (induction ys arbitrary: y)
  case Nil
  then show ?case by simp
next
  case (Cons z zs)
  have "\<forall>d\<in>set (min y z # zs). d \<le> 0" using Cons.prems by (auto simp: min_def)
  from Cons.IH[OF this] Cons.prems show ?case by (auto simp: min_def)
qed

lemma dropna_map_Fin: "dropna (map Fin ds) = map Fin ds"
  by (simp add: dropna_def isna_def comp_def)

lemma nanmin_Fin_Cons: "nanmin (map Fin (d # ds)) = Fin (foldl min d ds)"
  unfolding nanmin_def dropna_map_Fin by (simp add: foldl_fmin2_Fin)

lemma finite_returns_obtain:
  assumes "\<forall>x\<in>set r. above_minus_one x"
  shows "\<exists>as. r = map Fin as \<and> (\<forall>a\<in>set as. - 1 < a)"
  using assms
proof (induction r)
  case Nil
  then show ?case by simp
next
  case (Cons x r)
  then obtain as where as: "r = map Fin as" "\<forall>a\<in>set as. - 1 < a" by auto
  from Cons.prems obtain a where "x = Fin a" "- 1 < a"
    by (cases x) (auto simp: above_minus_one_def)
  with as have "x # r = map Fin (a # as) \<and> (\<forall>b\<in>set (a # as). - 1 < b)" by simp
  then show ?case by (rule exI)
qed

lemma equity_curve_Fin:
  "equity_curve (map Fin as) = map Fin (rprods 1 (map (\<lambda>a. 1 + a) as))"
proof -
  have "map (fadd (Fin 1)) (map Fin as) = map Fin (map (\<lambda>a. 1 + a) as)" by simp
  then show ?thesis
    unfolding equity_curve_def cumprod_def by (simp only: cumprod_from_Fin)
qed

lemma map2_dd_Fin:
  "\<forall>p\<in>set ps. p \<noteq> 0 \<Longrightarrow>
   map2 (\<lambda>x p. fsub (fdiv x p) (Fin 1)) (map Fin xs) (map Fin ps) =
     map Fin (map2 (\<lambda>x p. x / p - 1) xs ps)"
proof (induction xs arbitrary: ps)
  case Nil
  then show ?case by simp
next
  case (Cons x xs)
  then show ?case by (cases ps) (auto simp: fsub_def)
qed

lemma rmaxs_pos: "0 < m \<Longrightarrow> \<forall>p\<in>set (rmaxs m es). 0 < p"
proof (induction es arbitrary: m)
  case Nil
  then show ?case by simp
next
  case (Cons e es)
  have "0 < max m e" using Cons.prems by simp
  from Cons.IH[OF this] this show ?case by simp
qed

lemma drawdown_Fin:
  assumes "equity_curve r = map Fin (e # es)" "0 < e"
  shows "drawdown r = map Fin (0 # rdds e es)"
proof -
  have nz: "\<forall>p\<in>set (e # rmaxs e es). p \<noteq> 0"
    using rmaxs_pos[OF assms(2), of es] assms(2) by auto
  have "drawdown r = map2 (\<lambda>x p. fsub (fdiv x p) (Fin 1)) (map Fin (e # es)) (map Fin (e # rmaxs e es))"
    unfolding drawdown_def Let_def assms(1) cummax_Fin_Cons ..
  also have "\<dots> = map Fin (map2 (\<lambda>x p. x / p - 1) (e # es) (e # rmaxs e es))"
    by (rule map2_dd_Fin[OF nz])
  also have "\<dots> = map Fin (0 # rdds e es)"
    using assms(2) by (simp add: rdds_def)
  finally show ?thesis .
qed

lemma sorted_wrt_fle_Fin: "sorted_wrt fle (map Fin es) = sorted es"
  by (induction es) auto


text \<open>
  C6 (as amended). For a return series whose values are missing or finite and above -1 (the
  equity curve stays positive), MaxDD is at most 0, and it is 0 exactly when the equity
  curve never decreases.
\<close>

theorem maxdd_nonpos_zero_iff_monotone:
  assumes "\<forall>x\<in>set returns. isna x \<or> above_minus_one x"
  shows "fle (MaxDD (compute_perf_stats returns freq)) (Fin 0) \<and>
    (MaxDD (compute_perf_stats returns freq) = Fin 0) =
      sorted_wrt fle (equity_curve (dropna returns))"
proof (cases "dropna returns = []")
  case True
  then show ?thesis by (simp add: compute_perf_stats_def equity_curve_def cumprod_def)
next
  case False
  have "\<forall>x\<in>set (dropna returns). above_minus_one x"
    using assms by (auto simp: dropna_def)
  then obtain as where as: "dropna returns = map Fin as" "\<forall>a\<in>set as. - 1 < a"
    using finite_returns_obtain by blast
  with False obtain a as' where as': "as = a # as'" by (cases as) auto
  define e where "e = 1 + a"
  define es where "es = rprods e (map (\<lambda>a. 1 + a) as')"
  have epos: "0 < e" using as(2) as' by (simp add: e_def)
  have "equity_curve (map Fin (a # as')) = map Fin (rprods 1 (map (\<lambda>a. 1 + a) (a # as')))"
    by (rule equity_curve_Fin)
  then have eq: "equity_curve (dropna returns) = map Fin (e # es)"
    by (simp add: as(1) as' e_def es_def)
  have espos: "\<forall>x\<in>set es. 0 < x"
    unfolding es_def using as(2) as' by (intro rprods_pos[OF epos]) auto
  have dd: "drawdown (dropna returns) = map Fin (0 # rdds e es)"
    by (rule drawdown_Fin[OF eq epos])
  have mdd: "MaxDD (compute_perf_stats returns freq) = Fin (foldl min 0 (rdds e es))"
    using False by (simp add: compute_perf_stats_def Let_def dd nanmin_Fin_Cons del: list.map)
  have nonpos: "\<forall>d\<in>set (0 # rdds e es). d \<le> 0"
    using rdds_nonpos[OF epos espos] by simp
  have "foldl min 0 (rdds e es) \<le> 0" by (rule foldl_min_le[OF nonpos])
  moreover have "(foldl min 0 (rdds e es) = 0) = sorted (e # es)"
    using foldl_min_zero_iff[OF nonpos] rdds_zero_iff_sorted[OF epos espos] by simp
  ultimately show ?thesis
    unfolding mdd eq sorted_wrt_fle_Fin by simp
qed

theorem maxdd_nonpos_zero_iff_monotone_witness:
  "fle (MaxDD (compute_perf_stats [Fin (1 / 10), NaN, Fin (- 1 / 2)] 252)) (Fin 0) \<and>
   (MaxDD (compute_perf_stats [Fin (1 / 10), NaN, Fin (- 1 / 2)] 252) = Fin 0) =
     sorted_wrt fle (equity_curve (dropna [Fin (1 / 10), NaN, Fin (- 1 / 2)])) \<and>
   \<not> sorted_wrt fle (equity_curve (dropna [Fin (1 / 10), NaN, Fin (- 1 / 2)]))"
proof -
  have h: "\<forall>x\<in>set [Fin (1 / 10), NaN, Fin (- 1 / 2)]. isna x \<or> above_minus_one x"
    by (simp add: isna_def above_minus_one_def)
  have "\<not> sorted_wrt fle (equity_curve (dropna [Fin (1 / 10), NaN, Fin (- 1 / 2)]))"
    by (simp add: dropna_def isna_def equity_curve_def cumprod_def)
  with maxdd_nonpos_zero_iff_monotone[OF h, of 252] show ?thesis by simp
qed


text \<open>
  With a return below -1 the equity is negative: on the returns -2, 1 the equity curve
  falls from -1 to -2 and MaxDD is still 0. After a return of exactly -1 the equity and
  its peak are 0 and MaxDD is NaN.
\<close>

theorem maxdd_negative_equity_counterexample:
  "MaxDD (compute_perf_stats [Fin (- 2), Fin 1] 252) = Fin 0 \<and>
   equity_curve (dropna [Fin (- 2), Fin 1]) = [Fin (- 1), Fin (- 2)] \<and>
   \<not> sorted_wrt fle (equity_curve (dropna [Fin (- 2), Fin 1]))"
  by (simp add: compute_perf_stats_def dropna_def isna_def equity_curve_def cumprod_def
      nanmin_def drawdown_def cummax_def fsub_def fmin2_def Let_def)

lemma maxdd_total_loss:
  "MaxDD (compute_perf_stats [Fin (- 1)] 252) = NaN"
  by (simp add: compute_perf_stats_def dropna_def isna_def equity_curve_def cumprod_def
      nanmin_def drawdown_def cummax_def fsub_def fmin2_def Let_def)

section \<open>Properties of the walk-forward splits\<close>

lemma splits_loop_mem:
  "sp \<in> set (splits_loop rd ty tm cands acc) \<Longrightarrow>
     sp \<in> set acc \<or> (\<exists>ts\<in>set cands. candidate_split rd ty tm ts = Some sp)"
proof (induction cands arbitrary: acc)
  case Nil
  then show ?case by simp
next
  case (Cons ts cands)
  show ?case
  proof (cases "candidate_split rd ty tm ts")
    case None
    with Cons.prems have "sp \<in> set (splits_loop rd ty tm cands acc)" by simp
    from Cons.IH[OF this] show ?thesis by auto
  next
    case (Some sp')
    with Cons.prems have "sp \<in> set (splits_loop rd ty tm cands (acc @ [sp']))" by simp
    from Cons.IH[OF this] Some show ?thesis by auto
  qed
qed

lemma candidate_split_SomeD:
  assumes "candidate_split rd ty tm ts = Some (train_dates, test_dates)"
  shows "train_dates \<noteq> []" "test_dates \<noteq> []"
    "\<forall>a\<in>set train_dates. a < ts" "\<forall>b\<in>set test_dates. ts \<le> b"
  using assms by (auto simp: candidate_split_def Let_def split: if_splits)


subsection \<open>The example dates, evaluated\<close>

lemma c3_dates_eval: "c3_dates =
  [(2010, 1, 31), (2010, 2, 28), (2010, 3, 31), (2010, 4, 30), (2010, 5, 31),
   (2010, 6, 30), (2010, 7, 31), (2010, 8, 31), (2010, 9, 30),
   (2010, 10, 31), (2010, 11, 30), (2010, 12, 31), (2011, 1, 31),
   (2011, 2, 28), (2011, 3, 31), (2011, 4, 30), (2011, 5, 31), (2011, 6, 30),
   (2011, 7, 31), (2011, 8, 31), (2011, 9, 30), (2011, 10, 31),
   (2011, 11, 30), (2011, 12, 31), (2012, 1, 31), (2012, 2, 29)]"
  by code_simp

lemma c3_splits: "make_walkforward_splits c3_dates 5 6 =
  [(take 24 c3_dates, [(2012, 1, 31), (2012, 2, 29)]), (take 25 c3_dates, [(2012, 2, 29)])]"
  by code_simp


text \<open>
  C4. In every split that \<open>make_walkforward_splits\<close> emits, the train dates and the test
  dates are not empty and share no date, and the latest train date is strictly earlier than
  the earliest test date.
\<close>

theorem train_before_test:
  assumes "(train_dates, test_dates) \<in> set (make_walkforward_splits rebal_dates train_years test_months)"
  shows "train_dates \<noteq> [] \<and> test_dates \<noteq> [] \<and>
     set train_dates \<inter> set test_dates = {} \<and>
     Max (set train_dates) < Min (set test_dates)"
proof -
  from assms obtain ts where
    c: "candidate_split (sort rebal_dates) train_years test_months ts = Some (train_dates, test_dates)"
    unfolding make_walkforward_splits_def Let_def by (auto dest: splits_loop_mem)
  note d = candidate_split_SomeD[OF c]
  have "Max (set train_dates) \<in> set train_dates" using d(1) by (intro Max_in) auto
  then have lt: "Max (set train_dates) < ts" using d(3) by blast
  have "Min (set test_dates) \<in> set test_dates" using d(2) by (intro Min_in) auto
  then have le: "ts \<le> Min (set test_dates)" using d(4) by blast
  have mm: "Max (set train_dates) < Min (set test_dates)"
    using lt le by (rule less_le_trans)
  have "set train_dates \<inter> set test_dates = {}"
  proof (rule ccontr)
    assume "set train_dates \<inter> set test_dates \<noteq> {}"
    then obtain x where "x \<in> set train_dates" "x \<in> set test_dates" by auto
    with d(3,4) have "x < ts" "ts \<le> x" by blast+
    then have "x < x" by (rule less_le_trans)
    then show False using less_irrefl by blast
  qed
  with d(1,2) mm show ?thesis by blast
qed

theorem train_before_test_witness:
  "(take 24 c3_dates, [(2012, 1, 31), (2012, 2, 29)]) \<in> set (make_walkforward_splits c3_dates 5 6) \<and>
   last (take 24 c3_dates) = (2011, 12, 31) \<and>
   set (take 24 c3_dates) \<inter> set [(2012, 1, 31), (2012, 2, 29)] = {} \<and>
   Max (set (take 24 c3_dates)) < Min (set [(2012, 1, 31), (2012, 2, 29)])"
proof -
  have h: "(take 24 c3_dates, [(2012, 1, 31), (2012, 2, 29)]) \<in> set (make_walkforward_splits c3_dates 5 6)"
    by (simp add: c3_splits)
  have "last (take 24 c3_dates) = (2011, 12, 31)" by (simp add: c3_dates_eval)
  with train_before_test[OF h] h show ?thesis by simp
qed

section \<open>Properties of the weight vectors\<close>

lemma build_weights_eq:
  "build_weights top_q bot_q s =
     map (\<lambda>(t, x). (t,
        if t \<in> set (shorts_of bot_q s)
        then Fin (- 1 / real (length (shorts_of bot_q s)))
        else if t \<in> set (longs_of top_q s)
        then Fin (1 / real (length (longs_of top_q s)))
        else Fin 0)) s"
  by (auto simp: build_weights_def loc_assign_def Let_def)

lemma fsum_map_Fin: "fsum (map Fin xs) = Fin (sum_list xs)"
  by (induction xs) auto

lemma positive_sum_Fin:
  "positive_sum (map (\<lambda>(t, x). (t, Fin (f t))) s) =
     Fin (sum_list (filter (\<lambda>v. 0 < v) (map (\<lambda>(t, x). f t) s)))"
proof -
  have "filter (\<lambda>v. fle (Fin 0) v \<and> v \<noteq> Fin 0) (map snd (map (\<lambda>(t, x). (t, Fin (f t))) s)) =
        map Fin (filter (\<lambda>v. 0 < v) (map (\<lambda>(t, x). f t) s))"
    by (induction s) auto
  then show ?thesis by (simp add: positive_sum_def fsum_map_Fin)
qed

lemma sum_positive_weights:
  fixes L S :: "'t set" and a b :: real
  assumes "0 < a" "b < 0"
  shows "sum_list (filter (\<lambda>v. 0 < v)
            (map (\<lambda>(t, x). if t \<in> S then b else if t \<in> L then a else 0) (s :: ('t \<times> real) list))) =
         a * real (length (filter (\<lambda>(t, x). t \<in> L \<and> t \<notin> S) s))"
  using assms by (induction s) (auto simp: algebra_simps split: if_splits)

lemma map_of_map_key:
  "(t, x) \<in> set s \<Longrightarrow> map_of (map (\<lambda>(t, x). (t, g t)) s) t = Some (g t)"
  by (induction s) auto

lemma length_filter_strict:
  assumes "r \<in> set s" "B r" "\<not> A r" "\<forall>r\<in>set s. A r \<longrightarrow> B r"
  shows "length (filter A s) < length (filter B s)"
  using assms
proof (induction s)
  case Nil
  then show ?case by simp
next
  case (Cons y s)
  have le: "length (filter A s) \<le> length (filter B s)"
    using Cons.prems(4)
  proof (induction s)
    case Nil
    then show ?case by simp
  next
    case (Cons z s)
    then show ?case by auto
  qed
  show ?case
  proof (cases "r = y")
    case True
    with Cons.prems le show ?thesis by auto
  next
    case False
    with Cons.prems have "r \<in> set s" by simp
    from Cons.IH[OF this Cons.prems(2,3)] Cons.prems(4) show ?thesis by auto
  qed
qed

lemma in_longs_iff:
  assumes "distinct (map fst s)" "(t, x) \<in> set s"
  shows "t \<in> set (longs_of top_q s) = fle (quantile (map snd s) (1 - top_q)) (Fin x)"
proof -
  define c where "c = quantile (map snd s) (1 - top_q)"
  have uniq: "x' = x" if "(t, x') \<in> set s" for x'
    by (rule eq_key_imp_eq_value[OF assms(1) that assms(2)])
  have "t \<in> set (longs_of top_q s) = (\<exists>x'. (t, x') \<in> set s \<and> fle c (Fin x'))"
    unfolding longs_of_def Let_def c_def[symmetric] by (auto simp: image_iff)
  also have "\<dots> = fle c (Fin x)"
    using uniq assms(2) by blast
  finally show ?thesis by (simp add: c_def)
qed

lemma length_longs: "length (longs_of top_q s) =
    length (filter (\<lambda>(t, x). fle (quantile (map snd s) (1 - top_q)) (Fin x)) s)"
  by (simp add: longs_of_def Let_def)


text \<open>
  C10. In a cross-section with one score per ticker, a ticker whose score is at least
  \<open>long_cut\<close> and at most \<open>short_cut\<close> is in both legs and ends with the short weight
  -1/|shorts|: the assignment to the shorts comes last. The positive entries of that weight
  vector then sum to strictly less than 1, although the long leg is not empty.
\<close>

theorem overlap_gets_short_weight:
  assumes "distinct (map fst s)" and "(t, x) \<in> set s"
    and "fle (quantile (map snd s) (1 - top_q)) (Fin x)"
    and "fle (Fin x) (quantile (map snd s) bot_q)"
  shows "t \<in> set (longs_of top_q s) \<and> t \<in> set (shorts_of bot_q s) \<and>
     map_of (build_weights top_q bot_q s) t =
       Some (Fin (- 1 / real (length (shorts_of bot_q s)))) \<and>
     fle (positive_sum (build_weights top_q bot_q s)) (Fin 1) \<and>
     positive_sum (build_weights top_q bot_q s) \<noteq> Fin 1"
proof -
  let ?L = "longs_of top_q s" and ?S = "shorts_of bot_q s"
  let ?a = "1 / real (length ?L)" and ?b = "- 1 / real (length ?S)"
  let ?f = "\<lambda>t. if t \<in> set ?S then ?b else if t \<in> set ?L then ?a else 0"
  have tL: "t \<in> set ?L" using assms(2,3) by (force simp: longs_of_def Let_def)
  have tS: "t \<in> set ?S" using assms(2,4) by (force simp: shorts_of_def Let_def)
  have Lpos: "0 < length ?L" and Spos: "0 < length ?S" using tL tS by auto
  have w: "build_weights top_q bot_q s = map (\<lambda>(t, x). (t, Fin (?f t))) s"
    unfolding build_weights_eq by (rule map_cong) auto
  have "map_of (map (\<lambda>(t, x). (t, Fin (?f t))) s) t = Some (Fin (?f t))"
    using assms(2) by (rule map_of_map_key)
  then have wt: "map_of (build_weights top_q bot_q s) t = Some (Fin ?b)"
    using tS by (simp add: w)
  define k where "k = length (filter (\<lambda>(t, x). t \<in> set ?L \<and> t \<notin> set ?S) s)"
  have "k < length (filter (\<lambda>(t, x). fle (quantile (map snd s) (1 - top_q)) (Fin x)) s)"
    unfolding k_def
  proof (rule length_filter_strict[where r = "(t, x)"])
    show "(t, x) \<in> set s" by (rule assms(2))
    show "case (t, x) of (t, x) \<Rightarrow> fle (quantile (map snd s) (1 - top_q)) (Fin x)"
      using assms(3) by simp
    show "\<not> (case (t, x) of (t, x) \<Rightarrow> t \<in> set ?L \<and> t \<notin> set ?S)" using tS by simp
    show "\<forall>r\<in>set s. (case r of (t, x) \<Rightarrow> t \<in> set ?L \<and> t \<notin> set ?S) \<longrightarrow>
        (case r of (t, x) \<Rightarrow> fle (quantile (map snd s) (1 - top_q)) (Fin x))"
      using in_longs_iff[OF assms(1)] by auto
  qed
  then have klt: "k < length ?L" by (simp add: length_longs)
  have "positive_sum (build_weights top_q bot_q s) =
      Fin (sum_list (filter (\<lambda>v. 0 < v) (map (\<lambda>(t, x). ?f t) s)))"
    unfolding w by (rule positive_sum_Fin)
  also have "sum_list (filter (\<lambda>v. 0 < v) (map (\<lambda>(t, x). ?f t) s)) = ?a * real k"
    unfolding k_def using Lpos Spos by (intro sum_positive_weights) auto
  finally have ps: "positive_sum (build_weights top_q bot_q s) = Fin (?a * real k)" .
  have "?a * real k < 1" using klt Lpos by (simp add: divide_less_eq)
  moreover have "real k \<noteq> real (length ?L)" using klt by simp
  then have "?a * real k \<noteq> 1" using Lpos by (simp add: field_simps)
  ultimately show ?thesis using ps tL tS wt by simp
qed


theorem overlap_gets_short_weight_witness:
  "distinct (map fst [(''a'', 1::real), (''b'', 2), (''c'', 3)]) \<and>
   fle (quantile [1, 2, 3] (1 - 1 / 2)) (Fin 2) \<and> fle (Fin 2) (quantile [1, 2, 3] (1 / 2)) \<and>
   shorts_of (1 / 2) [(''a'', 1), (''b'', 2), (''c'', 3)] = [''a'', ''b''] \<and>
   map_of (build_weights (1 / 2) (1 / 2) [(''a'', 1), (''b'', 2), (''c'', 3)]) ''b'' = Some (Fin (- 1 / 2)) \<and>
   positive_sum (build_weights (1 / 2) (1 / 2) [(''a'', 1), (''b'', 2), (''c'', 3)]) \<noteq> Fin 1"
proof -
  have h1: "distinct (map fst [(''a'', 1::real), (''b'', 2), (''c'', 3)])" by simp
  have h2: "(''b'', 2::real) \<in> set [(''a'', 1), (''b'', 2), (''c'', 3)]" by simp
  have q1: "quantile [1, 2, 3] (1 - 1 / 2) = Fin 2" by code_simp
  have q2: "quantile [1, 2, 3] (1 / 2) = Fin 2" by code_simp
  have h3: "fle (quantile (map snd [(''a'', 1::real), (''b'', 2), (''c'', 3)]) (1 - 1 / 2)) (Fin 2)"
    using q1 by simp
  have h4: "fle (Fin 2) (quantile (map snd [(''a'', 1::real), (''b'', 2), (''c'', 3)]) (1 / 2))"
    using q2 by simp
  have sh: "shorts_of (1 / 2) [(''a'', 1), (''b'', 2), (''c'', 3)] = [''a'', ''b'']"
    by code_simp
  from overlap_gets_short_weight[OF h1 h2 h3 h4] sh q1 q2 show ?thesis by simp
qed


text \<open>
  C2. Three tickers with the same score, at the default quantiles: the long leg holds the
  three tickers, every weight is the short weight -1/3, and the positive entries sum to 0,
  not to 1.
\<close>

theorem equal_scores_all_short:
  "longs_of (1 / 10) [(''a'', 1), (''b'', 1), (''c'', 1)] = [''a'', ''b'', ''c''] \<and>
   build_weights (1 / 10) (1 / 10) [(''a'', 1), (''b'', 1), (''c'', 1)] =
     [(''a'', Fin (- 1 / 3)), (''b'', Fin (- 1 / 3)), (''c'', Fin (- 1 / 3))] \<and>
   positive_sum (build_weights (1 / 10) (1 / 10) [(''a'', 1), (''b'', 1), (''c'', 1)]) = Fin 0"
  by code_simp

section \<open>Properties of the position schedule\<close>

subsection \<open>Later writes replace earlier ones\<close>

lemma score_dates_map:
  "map_of (score_dates reg tq bq mu usable m ds mp) =
     map_of mp ++ map_of (score_dates reg tq bq mu usable m ds [])"
proof (induction ds arbitrary: mp)
  case Nil
  then show ?case by simp
next
  case (Cons d ds)
  show ?case
  proof (cases "date_weights reg tq bq mu usable m d")
    case None
    then show ?thesis using Cons.IH[of mp] by simp
  next
    case (Some w)
    have "map_of (score_dates reg tq bq mu usable m ds (AList.update d w mp)) =
        map_of (AList.update d w mp) ++ map_of (score_dates reg tq bq mu usable m ds [])"
      by (rule Cons.IH)
    moreover have "map_of (score_dates reg tq bq mu usable m ds [(d, w)]) =
        map_of [(d, w)] ++ map_of (score_dates reg tq bq mu usable m ds [])"
      by (rule Cons.IH)
    moreover have "map_of (AList.update d w mp) = map_of mp ++ map_of [(d, w)]"
      by (simp add: update_conv')
    ultimately show ?thesis using Some by (simp del: map_of.simps)
  qed
qed

lemma train_splits_map:
  "map_of (train_splits reg tq bq mu usable splits mp) =
     map_of mp ++ map_of (train_splits reg tq bq mu usable splits [])"
proof (induction splits arbitrary: mp)
  case Nil
  then show ?case by simp
next
  case (Cons sp splits)
  show ?case
  proof (cases "fit_split reg usable (fst sp)")
    case None
    then show ?thesis using Cons.IH[of mp] by simp
  next
    case (Some m)
    let ?one = "\<lambda>mp. score_dates reg tq bq mu usable m (snd sp) mp"
    let ?rest = "map_of (train_splits reg tq bq mu usable splits [])"
    have "map_of (train_splits reg tq bq mu usable (sp # splits) mp) = map_of (?one mp) ++ ?rest"
      using Some Cons.IH[of "?one mp"] by simp
    also have "\<dots> = map_of mp ++ (map_of (?one []) ++ ?rest)"
      using score_dates_map[of reg tq bq mu usable m "snd sp" mp] by simp
    also have "map_of (?one []) ++ ?rest = map_of (train_splits reg tq bq mu usable (sp # splits) [])"
      using Some Cons.IH[of "?one []"] by simp
    finally show ?thesis .
  qed
qed

lemma train_splits_append:
  "train_splits reg tq bq mu usable (xs @ ys) mp =
     train_splits reg tq bq mu usable ys (train_splits reg tq bq mu usable xs mp)"
  by (induction xs arbitrary: mp) (auto split: option.splits)

lemma train_splits_snoc_map:
  "map_of (train_splits reg tq bq mu usable (xs @ [sp]) []) =
     map_of (train_splits reg tq bq mu usable xs []) ++ map_of (split_result reg tq bq mu usable sp)"
  unfolding train_splits_append split_result_def
  by (rule train_splits_map)

lemma last_writer:
  "map_of (train_splits reg tq bq mu usable splits []) d =
     (case filter (\<lambda>sp. d \<in> fst ` set (split_result reg tq bq mu usable sp)) splits of
        [] \<Rightarrow> None
      | sp # sps \<Rightarrow> map_of (split_result reg tq bq mu usable (last (sp # sps))) d)"
proof (induction splits rule: rev_induct)
  case Nil
  then show ?case by simp
next
  case (snoc sp xs)
  let ?W = "\<lambda>sp. d \<in> fst ` set (split_result reg tq bq mu usable sp)"
  show ?case
  proof (cases "?W sp")
    case True
    then obtain w where w: "map_of (split_result reg tq bq mu usable sp) d = Some w"
      by (metis map_of_eq_None_iff not_Some_eq)
    have "filter ?W (xs @ [sp]) = filter ?W xs @ [sp]" using True by simp
    then obtain y ys where f: "filter ?W (xs @ [sp]) = y # ys" "last (y # ys) = sp"
      by (cases "filter ?W xs") auto
    show ?thesis
      unfolding train_splits_snoc_map f list.case f(2) by (simp add: w map_add_def)
  next
    case False
    then have n: "map_of (split_result reg tq bq mu usable sp) d = None"
      by (simp add: map_of_eq_None_iff)
    have "filter ?W (xs @ [sp]) = filter ?W xs" using False by simp
    then show ?thesis
      unfolding train_splits_snoc_map using snoc.IH by (simp add: n map_add_def)
  qed
qed


subsection \<open>The example, evaluated\<close>

lemma filter_concat_rows:
  assumes "\<forall>d\<in>set ds. \<forall>r\<in>set (rows d). P r = Q d"
  shows "filter P (concat (map rows ds)) = concat (map rows (filter Q ds))"
  using assms
proof (induction ds)
  case Nil
  then show ?case by simp
next
  case (Cons d ds)
  have "filter P (rows d) = (if Q d then rows d else [])"
    using Cons.prems by (auto simp: filter_empty_conv intro: filter_True)
  with Cons show ?case by simp
qed

lemma c3_rows_date: "r \<in> set (c3_rows d) \<Longrightarrow> row_date r = d"
  by (auto simp: c3_rows_def)

lemma c3_usable: "usable_rows c3_panel = c3_panel"
  unfolding usable_rows_def
  by (rule filter_True) (auto simp: c3_panel_def c3_rows_def isna_def)

lemma c3_cross_section:
  "cross_section c3_panel d = concat (map c3_rows (filter (\<lambda>d'. d' = d) c3_dates))"
  unfolding cross_section_def c3_panel_def
  by (rule filter_concat_rows) (auto dest: c3_rows_date)

lemma c3_train_rows:
  "train_rows c3_panel tr = concat (map c3_rows (filter (\<lambda>d. d \<in> set tr) c3_dates))"
  unfolding train_rows_def c3_panel_def
  by (rule filter_concat_rows) (auto dest: c3_rows_date)

lemma c3_filter_24: "filter (\<lambda>d. d \<in> set (take 24 c3_dates)) c3_dates = take 24 c3_dates"
  by code_simp

lemma c3_filter_25: "filter (\<lambda>d. d \<in> set (take 25 c3_dates)) c3_dates = take 25 c3_dates"
  by code_simp

lemma c3_filter_d24: "filter (\<lambda>d'. d' = (2012, 1, 31)) c3_dates = [(2012, 1, 31)]"
  by code_simp

lemma c3_filter_d25: "filter (\<lambda>d'. d' = (2012, 2, 29)) c3_dates = [(2012, 2, 29)]"
  by code_simp

lemma c3_length_rows:
  "length (concat (map c3_rows ds)) =
     sum_list (map (\<lambda>d. if d < (2012, 1, 31) then 42 else 3) ds)"
  by (induction ds) (auto simp: c3_rows_def)

lemma c3_targets_rows:
  "map y_fwd_3m (concat (map c3_rows ds)) =
     map Fin (concat (map (\<lambda>d. replicate (if d < (2012, 1, 31) then 42 else 3)
                                         (if d < (2012, 1, 31) then 1 else - 1000)) ds))"
proof -
  have "map y_fwd_3m (c3_rows d) =
      map Fin (replicate (if d < (2012, 1, 31) then 42 else 3) (if d < (2012, 1, 31) then 1 else - 1000))" for d
    by (simp add: c3_rows_def comp_def map_replicate_const)
  then show ?thesis by (induction ds) simp_all
qed

lemma c3_fit_rows:
  "fsum (map y_fwd_3m (concat (map c3_rows ds))) =
     Fin (sum_list (map (\<lambda>d. if d < (2012, 1, 31) then 42 else - 3000) ds))"
proof -
  have "sum_list (concat (map (\<lambda>d. replicate (if d < (2012, 1, 31) then 42 else 3)
                                         (if d < (2012, 1, 31) then 1 else - 1000 :: real)) ds)) =
        sum_list (map (\<lambda>d. if d < (2012, 1, 31) then 42 else - 3000) ds)"
    by (induction ds) (auto simp: sum_list_replicate)
  then show ?thesis by (simp only: c3_targets_rows fsum_map_Fin)
qed

lemma c3_len_24: "sum_list (map (\<lambda>d. if d < (2012, 1, 31) then 42 else 3) (take 24 c3_dates)) = (1008::nat)"
  by code_simp

lemma c3_len_25: "sum_list (map (\<lambda>d. if d < (2012, 1, 31) then 42 else 3) (take 25 c3_dates)) = (1011::nat)"
  by code_simp

lemma c3_sum_24: "sum_list (map (\<lambda>d. if d < (2012, 1, 31) then 42 else - 3000) (take 24 c3_dates)) = (1008::real)"
  by code_simp

lemma c3_sum_25: "sum_list (map (\<lambda>d. if d < (2012, 1, 31) then 42 else - 3000) (take 25 c3_dates)) = (- 1992::real)"
  by code_simp

lemma c3_fit_24: "fit_split c3_regressor c3_panel (take 24 c3_dates) = Some (Fin 1008)"
  by (simp del: One_nat_def add: fit_split_def Let_def c3_train_rows c3_filter_24 c3_length_rows c3_len_24
      c3_fit_rows c3_sum_24 c3_regressor_def)

lemma c3_fit_25: "fit_split c3_regressor c3_panel (take 25 c3_dates) = Some (Fin (- 1992))"
  by (simp del: One_nat_def add: fit_split_def Let_def c3_train_rows c3_filter_25 c3_length_rows c3_len_25
      c3_fit_rows c3_sum_25 c3_regressor_def)

lemma c3_weights_up:
  "build_weights (1 / 10) (1 / 10) (scores c3_regressor (Fin 1008) (c3_rows (2012, 2, 29))) =
     [(0, Fin (- 1)), (1, Fin 0), (2, Fin 1)]"
  by code_simp

lemma c3_weights_up24:
  "build_weights (1 / 10) (1 / 10) (scores c3_regressor (Fin 1008) (c3_rows (2012, 1, 31))) =
     [(0, Fin (- 1)), (1, Fin 0), (2, Fin 1)]"
  by code_simp

lemma c3_weights_down:
  "build_weights (1 / 10) (1 / 10) (scores c3_regressor (Fin (- 1992)) (c3_rows (2012, 2, 29))) =
     [(0, Fin 1), (1, Fin 0), (2, Fin (- 1))]"
  by code_simp

lemma c3_rows_len: "length (c3_rows (2012, 2, 29)) = 3" "length (c3_rows (2012, 1, 31)) = 3"
  by code_simp+

lemma c3_date_weights_up:
  "date_weights c3_regressor (1 / 10) (1 / 10) 3 c3_panel (Fin 1008) (2012, 2, 29) =
     Some [(0, Fin (- 1)), (1, Fin 0), (2, Fin 1)]"
  by (simp del: One_nat_def add: date_weights_def Let_def c3_cross_section c3_filter_d25 c3_rows_len c3_weights_up)

lemma c3_date_weights_up24:
  "date_weights c3_regressor (1 / 10) (1 / 10) 3 c3_panel (Fin 1008) (2012, 1, 31) =
     Some [(0, Fin (- 1)), (1, Fin 0), (2, Fin 1)]"
  by (simp del: One_nat_def add: date_weights_def Let_def c3_cross_section c3_filter_d24 c3_rows_len c3_weights_up24)

lemma c3_date_weights_down:
  "date_weights c3_regressor (1 / 10) (1 / 10) 3 c3_panel (Fin (- 1992)) (2012, 2, 29) =
     Some [(0, Fin 1), (1, Fin 0), (2, Fin (- 1))]"
  by (simp del: One_nat_def add: date_weights_def Let_def c3_cross_section c3_filter_d25 c3_rows_len c3_weights_down)

lemma c3_result_first:
  "split_result c3_regressor (1 / 10) (1 / 10) 3 c3_panel (take 24 c3_dates, [(2012, 1, 31), (2012, 2, 29)]) =
     [((2012, 1, 31), [(0, Fin (- 1)), (1, Fin 0), (2, Fin 1)]),
      ((2012, 2, 29), [(0, Fin (- 1)), (1, Fin 0), (2, Fin 1)])]"
  by (simp del: One_nat_def add: split_result_def c3_fit_24 c3_date_weights_up c3_date_weights_up24)

lemma c3_result_second:
  "split_result c3_regressor (1 / 10) (1 / 10) 3 c3_panel (take 25 c3_dates, [(2012, 2, 29)]) =
     [((2012, 2, 29), [(0, Fin 1), (1, Fin 0), (2, Fin (- 1))])]"
  by (simp del: One_nat_def add: split_result_def c3_fit_25 c3_date_weights_down)

lemma c3_schedule:
  "generate_monthly_positions c3_panel c3_dates (1 / 10) (1 / 10) 3 c3_regressor =
     [((2012, 1, 31), [(0, Fin (- 1)), (1, Fin 0), (2, Fin 1)]),
      ((2012, 2, 29), [(0, Fin 1), (1, Fin 0), (2, Fin (- 1))])]"
  by (simp del: One_nat_def add: generate_monthly_positions_def c3_usable c3_splits c3_fit_24 c3_fit_25
      c3_date_weights_up c3_date_weights_up24 c3_date_weights_down)

lemma c3_schedule_reversed:
  "train_splits c3_regressor (1 / 10) (1 / 10) 3 (usable_rows c3_panel)
      (rev (make_walkforward_splits c3_dates 5 6)) [] =
     [((2012, 2, 29), [(0, Fin (- 1)), (1, Fin 0), (2, Fin 1)]),
      ((2012, 1, 31), [(0, Fin (- 1)), (1, Fin 0), (2, Fin 1)])]"
  by (simp del: One_nat_def add: c3_usable c3_splits c3_fit_24 c3_fit_25
      c3_date_weights_up c3_date_weights_up24 c3_date_weights_down)

text \<open>
  C3 (as amended). Test windows of successive splits overlap, so several splits can write
  an entry for the same date. The splits are processed in the order of their test starts
  and a write replaces the entry already there: the schedule holds, for each date, the
  entry of the last split that writes the date (and none when no split writes it). The
  result depends on the processing order.
\<close>

theorem last_split_wins:
  "map_of (generate_monthly_positions panel rebal_dates top_q bot_q min_universe reg) d =
     (case filter (\<lambda>sp. d \<in> fst ` set (split_result reg top_q bot_q min_universe (usable_rows panel) sp))
             (make_walkforward_splits rebal_dates 5 6) of
        [] \<Rightarrow> None
      | sp # sps \<Rightarrow>
          map_of (split_result reg top_q bot_q min_universe (usable_rows panel) (last (sp # sps))) d)"
  unfolding generate_monthly_positions_def by (rule last_writer)

theorem last_split_wins_witness:
  "filter (\<lambda>sp. (2012, 1, 31) \<in> fst ` set (split_result c3_regressor (1 / 10) (1 / 10) 3 (usable_rows c3_panel) sp))
       (make_walkforward_splits c3_dates 5 6) =
     [(take 24 c3_dates, [(2012, 1, 31), (2012, 2, 29)])] \<and>
   map_of (generate_monthly_positions c3_panel c3_dates (1 / 10) (1 / 10) 3 c3_regressor) (2012, 1, 31) =
     map_of (split_result c3_regressor (1 / 10) (1 / 10) 3 (usable_rows c3_panel)
               (take 24 c3_dates, [(2012, 1, 31), (2012, 2, 29)])) (2012, 1, 31)"
proof -
  have f: "filter (\<lambda>sp. (2012, 1, 31) \<in> fst ` set (split_result c3_regressor (1 / 10) (1 / 10) 3 (usable_rows c3_panel) sp))
       (make_walkforward_splits c3_dates 5 6) =
     [(take 24 c3_dates, [(2012, 1, 31), (2012, 2, 29)])]"
    by (simp del: One_nat_def add: c3_splits c3_usable c3_result_first c3_result_second)
  show ?thesis
    using last_split_wins[of c3_panel c3_dates "1 / 10" "1 / 10" 3 c3_regressor "(2012, 1, 31)"]
    unfolding f by simp
qed

text \<open>
  In the example the date 2012-02-29 is in the test window of both splits, and the two
  fitted models weigh it differently. The schedule keeps the entry of the second split;
  processing the splits in the reverse order keeps the entry of the first.
\<close>

theorem two_splits_write_one_date:
  "make_walkforward_splits c3_dates 5 6 =
     [(take 24 c3_dates, [(2012, 1, 31), (2012, 2, 29)]), (take 25 c3_dates, [(2012, 2, 29)])] \<and>
   map_of (split_result c3_regressor (1 / 10) (1 / 10) 3 (usable_rows c3_panel)
             (take 24 c3_dates, [(2012, 1, 31), (2012, 2, 29)])) (2012, 2, 29) =
     Some [(0, Fin (- 1)), (1, Fin 0), (2, Fin 1)] \<and>
   map_of (split_result c3_regressor (1 / 10) (1 / 10) 3 (usable_rows c3_panel)
             (take 25 c3_dates, [(2012, 2, 29)])) (2012, 2, 29) =
     Some [(0, Fin 1), (1, Fin 0), (2, Fin (- 1))] \<and>
   map_of (generate_monthly_positions c3_panel c3_dates (1 / 10) (1 / 10) 3 c3_regressor) (2012, 2, 29) =
     Some [(0, Fin 1), (1, Fin 0), (2, Fin (- 1))] \<and>
   map_of (train_splits c3_regressor (1 / 10) (1 / 10) 3 (usable_rows c3_panel)
             (rev (make_walkforward_splits c3_dates 5 6)) []) (2012, 2, 29) =
     Some [(0, Fin (- 1)), (1, Fin 0), (2, Fin 1)]"
proof -
  have first: "map_of (split_result c3_regressor (1 / 10) (1 / 10) 3 (usable_rows c3_panel)
             (take 24 c3_dates, [(2012, 1, 31), (2012, 2, 29)])) (2012, 2, 29) =
     Some [(0, Fin (- 1)), (1, Fin 0), (2, Fin 1)]"
    by (simp del: One_nat_def add: c3_usable c3_result_first)
  have second: "map_of (split_result c3_regressor (1 / 10) (1 / 10) 3 (usable_rows c3_panel)
             (take 25 c3_dates, [(2012, 2, 29)])) (2012, 2, 29) =
     Some [(0, Fin 1), (1, Fin 0), (2, Fin (- 1))]"
    by (simp del: One_nat_def add: c3_usable c3_result_second)
  have kept: "map_of (generate_monthly_positions c3_panel c3_dates (1 / 10) (1 / 10) 3 c3_regressor)
       (2012, 2, 29) = Some [(0, Fin 1), (1, Fin 0), (2, Fin (- 1))]"
    by (simp del: One_nat_def add: c3_schedule)
  have reversed: "map_of (train_splits c3_regressor (1 / 10) (1 / 10) 3 (usable_rows c3_panel)
             (rev (make_walkforward_splits c3_dates 5 6)) []) (2012, 2, 29) =
     Some [(0, Fin (- 1)), (1, Fin 0), (2, Fin 1)]"
    by (simp del: One_nat_def add: c3_schedule_reversed)
  from c3_splits first second kept reversed show ?thesis by blast
qed

end
